theory Spec2Isabelle
  imports Complex_Main
begin

section \<open>Python text\<close>

text \<open>
  A Python \<open>str\<close> is a sequence of Unicode code points; \<open>len\<close> counts code points.
  It is modelled as a list of naturals, one per code point.  ASCII literals of the source
  are written through \<open>lit\<close>.
\<close>

type_synonym pystr = "nat list"

definition lit :: "string \<Rightarrow> pystr" where
  "lit s = map of_char s"

text \<open>
  The code points that \<open>str.split()\<close> and \<open>str.strip()\<close> (called without argument) treat as
  whitespace: CPython's \<open>Py_UNICODE_ISSPACE\<close> table.
\<close>

definition py_isspace :: "nat \<Rightarrow> bool" where
  "py_isspace c \<longleftrightarrow>
     (0x09 \<le> c \<and> c \<le> 0x0D) \<or> (0x1C \<le> c \<and> c \<le> 0x20) \<or> c = 0x85 \<or> c = 0xA0 \<or>
     c = 0x1680 \<or> (0x2000 \<le> c \<and> c \<le> 0x200A) \<or> c = 0x2028 \<or> c = 0x2029 \<or>
     c = 0x202F \<or> c = 0x205F \<or> c = 0x3000"

text \<open>\<open>s.split()\<close>: skip whitespace, cut the next maximal whitespace-free word, repeat.\<close>

function py_split :: "pystr \<Rightarrow> pystr list" where
  "py_split s =
     (case dropWhile py_isspace s of
        [] \<Rightarrow> []
      | c # cs \<Rightarrow> takeWhile (\<lambda>x. \<not> py_isspace x) (c # cs)
                 # py_split (dropWhile (\<lambda>x. \<not> py_isspace x) (c # cs)))"
  by pat_completeness auto
termination
proof (relation "measure length")
  show "wf (measure length)" by simp
next
  fix s :: pystr and c cs
  assume a: "dropWhile py_isspace s = c # cs"
  have "\<not> py_isspace c"
    using a by (metis hd_dropWhile list.sel(1) list.distinct(1))
  then have "length (dropWhile (\<lambda>x. \<not> py_isspace x) (c # cs)) \<le> length cs"
    using length_dropWhile_le[of "\<lambda>x. \<not> py_isspace x" cs] by simp
  moreover have "length (c # cs) \<le> length s"
    using a length_dropWhile_le[of py_isspace s] by simp
  ultimately show "(dropWhile (\<lambda>x. \<not> py_isspace x) (c # cs), s) \<in> measure length"
    by simp
qed

declare py_split.simps [simp del]

text \<open>\<open>sep.join(ws)\<close>.\<close>

fun py_join :: "pystr \<Rightarrow> pystr list \<Rightarrow> pystr" where
  "py_join sep [] = []"
| "py_join sep [w] = w"
| "py_join sep (w # v # vs) = w @ sep @ py_join sep (v # vs)"

text \<open>\<open>s.rstrip()\<close> and \<open>s.strip()\<close>.\<close>

definition py_rstrip :: "pystr \<Rightarrow> pystr" where
  "py_rstrip s = rev (dropWhile py_isspace (rev s))"

definition py_strip :: "pystr \<Rightarrow> pystr" where
  "py_strip s = py_rstrip (dropWhile py_isspace s)"

text \<open>\<open>s.startswith(p)\<close> and \<open>sub in s\<close>.\<close>

fun starts_with :: "pystr \<Rightarrow> pystr \<Rightarrow> bool" where
  "starts_with s [] = True"
| "starts_with [] (p # ps) = False"
| "starts_with (c # cs) (p # ps) = (c = p \<and> starts_with cs ps)"

fun py_in :: "pystr \<Rightarrow> pystr \<Rightarrow> bool" where
  "py_in sub [] = (sub = [])"
| "py_in sub (c # cs) = (starts_with (c # cs) sub \<or> py_in sub cs)"

subsection \<open>The sanitizer: \<open>LinkedInConnector.clean_text\<close>\<close>

text \<open>
  \<open>re.sub(pattern, '', text)\<close> with the pattern "any character not in the range
  U+0000 to U+FFFF": delete every code point above U+FFFF.
\<close>

definition re_sub_non_bmp :: "pystr \<Rightarrow> pystr" where
  "re_sub_non_bmp s = filter (\<lambda>c. c \<le> 0xFFFF) s"

definition clean_text :: "pystr \<Rightarrow> pystr" where
  "clean_text t = py_join [0x20] (py_split (re_sub_non_bmp t))"

text \<open>
  The specification's wording, for comparison with the code: every maximal run of
  whitespace is replaced by one space (U+0020), wherever the run stands.
\<close>

fun collapse_runs :: "pystr \<Rightarrow> pystr" where
  "collapse_runs [] = []"
| "collapse_runs [c] = [if py_isspace c then 0x20 else c]"
| "collapse_runs (c # d # cs) =
     (if py_isspace c \<and> py_isspace d then collapse_runs (d # cs)
      else (if py_isspace c then 0x20 else c) # collapse_runs (d # cs))"

text \<open>A word: a non-empty text without whitespace.\<close>

definition word :: "pystr \<Rightarrow> bool" where
  "word w \<longleftrightarrow> w \<noteq> [] \<and> list_all (\<lambda>c. \<not> py_isspace c) w"

section \<open>Values, exceptions and the outside world\<close>

text \<open>What \<open>json.load\<close> and \<open>response.json()\<close> return.\<close>

datatype json = JString pystr | JNumber int | JBool bool | JNull | JArray "json list"
  | JObject "string \<Rightarrow> json option"

text \<open>A profile is a JSON object with text attributes (\<open>name\<close>, \<open>url\<close>, \<open>current_position\<close>, ...).\<close>

type_synonym profile = "string \<Rightarrow> pystr option"

datatype exn = KeyError string | AttributeError | ValueError | TimeoutException
  | ConnectionError | JSONDecodeError | WebDriverException

text \<open>The body of the POST request and the parts of the HTTP response that the code reads.\<close>

record request =
  req_url :: string
  req_model :: pystr
  req_prompt :: pystr
  req_stream :: bool

record response =
  status_code :: int
  resp_text :: pystr
  resp_json :: "exn + json"

text \<open>Page elements are opaque handles.\<close>

type_synonym elem = nat

datatype locator = ById string | ByCss string

datatype condition = PresenceOfElementLocated locator | ElementToBeClickable locator

text \<open>The scripts passed to \<open>driver.execute_script\<close>, with their arguments.\<close>

datatype script = MaskWebdriver | ScrollIntoView elem | JsClick elem | ScrollCenter elem
  | SetValue elem pystr | DispatchInput elem

text \<open>
  The trace of a run: one event for every call that leaves the program (driver, HTTP, file,
  random source), every \<open>time.sleep\<close> and every \<open>print\<close>, in program order.  A printed line is
  its format string with the values of its holes.
\<close>

datatype arg = S pystr | A string | N nat | R real | E exn

datatype event =
    WebdriverInstall
  | WebdriverChrome "string list"
  | DriverGet pystr
  | CurrentUrl
  | FindElements string
  | ExecuteScript script
  | Quit
  | WaitUntil condition
  | WaitUntilAll locator
  | IsDisplayed elem
  | IsEnabled elem
  | ElemText elem
  | SendKeys elem pystr
  | Click elem
  | Post request
  | LoadFile string
  | RandomUniform real real
  | Sleep real
  | Print string "arg list"

text \<open>
  The external collaborators.  Every operation may raise (\<open>Inl\<close>) and may change the world
  \<open>'w\<close> (browser, network, file system, random generator), about which nothing is assumed.
  \<open>random_bits\<close> is the 53-bit integer behind \<open>random.random()\<close>; \<open>str_lower\<close> is \<open>str.lower\<close>.
\<close>

record 'w env =
  webdriver_install :: "'w \<Rightarrow> (exn + unit) \<times> 'w"
  webdriver_chrome :: "string list \<Rightarrow> 'w \<Rightarrow> (exn + unit) \<times> 'w"
  driver_get :: "pystr \<Rightarrow> 'w \<Rightarrow> (exn + unit) \<times> 'w"
  current_url :: "'w \<Rightarrow> (exn + pystr) \<times> 'w"
  find_elements :: "string \<Rightarrow> 'w \<Rightarrow> (exn + elem list) \<times> 'w"
  execute_script :: "script \<Rightarrow> 'w \<Rightarrow> (exn + unit) \<times> 'w"
  driver_quit :: "'w \<Rightarrow> (exn + unit) \<times> 'w"
  wait_until :: "condition \<Rightarrow> 'w \<Rightarrow> (exn + elem) \<times> 'w"
  wait_until_all :: "locator \<Rightarrow> 'w \<Rightarrow> (exn + elem list) \<times> 'w"
  is_displayed :: "elem \<Rightarrow> 'w \<Rightarrow> (exn + bool) \<times> 'w"
  is_enabled :: "elem \<Rightarrow> 'w \<Rightarrow> (exn + bool) \<times> 'w"
  elem_text :: "elem \<Rightarrow> 'w \<Rightarrow> (exn + pystr) \<times> 'w"
  send_keys :: "elem \<Rightarrow> pystr \<Rightarrow> 'w \<Rightarrow> (exn + unit) \<times> 'w"
  elem_click :: "elem \<Rightarrow> 'w \<Rightarrow> (exn + unit) \<times> 'w"
  requests_post :: "request \<Rightarrow> 'w \<Rightarrow> (exn + response) \<times> 'w"
  json_load_file :: "string \<Rightarrow> 'w \<Rightarrow> (exn + profile list) \<times> 'w"
  random_bits :: "'w \<Rightarrow> nat \<times> 'w"
  str_lower :: "pystr \<Rightarrow> pystr"

text \<open>
  The program state: the fields of the \<open>LinkedInConnector\<close> object (\<open>driver\<close> tells whether
  \<open>self.driver\<close> is set), the world and the trace so far.
\<close>

record 'w state =
  email :: pystr
  password :: pystr
  headless :: bool
  driver :: bool
  world :: 'w
  trace :: "event list"

section \<open>Statements with exceptions and state\<close>

type_synonym ('w, 'a) prog = "'w state \<Rightarrow> (exn + 'a) \<times> 'w state"

definition ret :: "'a \<Rightarrow> ('w, 'a) prog" where
  "ret x s = (Inr x, s)"

definition lift :: "exn + 'a \<Rightarrow> ('w, 'a) prog" where
  "lift r s = (r, s)"

definition gets :: "('w state \<Rightarrow> 'a) \<Rightarrow> ('w, 'a) prog" where
  "gets f s = (Inr (f s), s)"

text \<open>\<open>bnd m f\<close>: run \<open>m\<close>, then \<open>f\<close> on its value; an exception of \<open>m\<close> skips \<open>f\<close>.\<close>

definition bnd :: "('w, 'a) prog \<Rightarrow> ('a \<Rightarrow> ('w, 'b) prog) \<Rightarrow> ('w, 'b) prog" where
  "bnd m f s = (case m s of (Inl e, s') \<Rightarrow> (Inl e, s') | (Inr x, s') \<Rightarrow> f x s')"

definition andthen :: "('w, 'a) prog \<Rightarrow> ('w, 'b) prog \<Rightarrow> ('w, 'b) prog" where
  "andthen m n = bnd m (\<lambda>_. n)"

text \<open>\<open>try: m except Exception as e: h e\<close>.\<close>

definition try_except :: "('w, 'a) prog \<Rightarrow> (exn \<Rightarrow> ('w, 'a) prog) \<Rightarrow> ('w, 'a) prog" where
  "try_except m h s = (case m s of (Inl e, s') \<Rightarrow> h e s' | (Inr x, s') \<Rightarrow> (Inr x, s'))"

text \<open>\<open>try: m finally: fin\<close>: \<open>fin\<close> runs on every exit of \<open>m\<close>; if it raises, that exception wins.\<close>

definition try_finally :: "('w, 'a) prog \<Rightarrow> ('w, unit) prog \<Rightarrow> ('w, 'a) prog" where
  "try_finally m fin s =
     (case m s of (r, s') \<Rightarrow>
        (case fin s' of (Inl e, s'') \<Rightarrow> (Inl e, s'') | (Inr _, s'') \<Rightarrow> (r, s'')))"

definition emit :: "event \<Rightarrow> ('w, unit) prog" where
  "emit ev s = (Inr (), s\<lparr>trace := trace s @ [ev]\<rparr>)"

text \<open>A call of an external operation: logged, then answered by the world.\<close>

definition call :: "event \<Rightarrow> ('w \<Rightarrow> (exn + 'a) \<times> 'w) \<Rightarrow> ('w, 'a) prog" where
  "call ev f s =
     (case f (world s) of (r, w') \<Rightarrow> (r, s\<lparr>world := w', trace := trace s @ [ev]\<rparr>))"

definition sleep :: "real \<Rightarrow> ('w, unit) prog" where
  "sleep d = emit (Sleep d)"

definition py_print :: "string \<Rightarrow> arg list \<Rightarrow> ('w, unit) prog" where
  "py_print fmt args = emit (Print fmt args)"

text \<open>\<open>d[k]\<close> on a dictionary, \<open>d.get(k, default)\<close> and \<open>v.strip()\<close> on a JSON value.\<close>

definition subscript :: "profile \<Rightarrow> string \<Rightarrow> exn + pystr" where
  "subscript d k = (case d k of None \<Rightarrow> Inl (KeyError k) | Some v \<Rightarrow> Inr v)"

fun json_get :: "json \<Rightarrow> string \<Rightarrow> json \<Rightarrow> exn + json" where
  "json_get (JObject d) k dflt = Inr (case d k of None \<Rightarrow> dflt | Some v \<Rightarrow> v)"
| "json_get _ k dflt = Inl AttributeError"

fun json_strip :: "json \<Rightarrow> exn + pystr" where
  "json_strip (JString s) = Inr (py_strip s)"
| "json_strip _ = Inl AttributeError"

text \<open>
  \<open>random.uniform(a, b)\<close> is \<open>a + (b - a) * random()\<close>, and \<open>random()\<close> is a 53-bit integer
  divided by \<open>2 ^ 53\<close>.  Floating-point rounding is not modelled: the arithmetic is real.
\<close>

definition py_random :: "nat \<Rightarrow> real" where
  "py_random bits = real (bits mod 2 ^ 53) / 2 ^ 53"

definition random_uniform :: "'w env \<Rightarrow> real \<Rightarrow> real \<Rightarrow> ('w, real) prog" where
  "random_uniform env a b =
     bnd (call (RandomUniform a b) (\<lambda>w. case random_bits env w of (bits, w') \<Rightarrow> (Inr bits, w')))
         (\<lambda>bits. ret (a + (b - a) * py_random bits))"

section \<open>The connector: \<open>linkedin-modules.py\<close>\<close>

text \<open>
  \<open>__init__\<close>: the credentials come from the environment; a missing or empty one raises
  \<open>ValueError\<close>.  The trace starts empty and no driver is set.
\<close>

definition truthy :: "pystr option \<Rightarrow> bool" where
  "truthy v = (case v of None \<Rightarrow> False | Some t \<Rightarrow> t \<noteq> [])"

definition init :: "pystr option \<Rightarrow> pystr option \<Rightarrow> bool \<Rightarrow> 'w \<Rightarrow> exn + 'w state" where
  "init env_email env_password hl w =
     (if \<not> truthy env_email \<or> \<not> truthy env_password then Inl ValueError
      else Inr \<lparr>email = the env_email, password = the env_password, headless = hl,
                driver = False, world = w, trace = []\<rparr>)"

subsection \<open>\<open>setup_driver\<close>\<close>

definition chrome_options :: "bool \<Rightarrow> string list" where
  "chrome_options hl =
     (if hl then [''--headless''] else []) @
     [''--disable-notifications'', ''--start-maximized'',
      ''--disable-blink-features=AutomationControlled'',
      ''excludeSwitches=enable-automation'', ''useAutomationExtension=False'']"

definition setup_driver :: "'w env \<Rightarrow> ('w, unit) prog" where
  "setup_driver env =
     bnd (gets headless) (\<lambda>hl.
     andthen (call WebdriverInstall (webdriver_install env))
    (andthen (call (WebdriverChrome (chrome_options hl)) (webdriver_chrome env (chrome_options hl)))
    (andthen (\<lambda>s. (Inr (), s\<lparr>driver := True\<rparr>))
             (call (ExecuteScript MaskWebdriver) (execute_script env MaskWebdriver)))))"

subsection \<open>\<open>generate_connection_note\<close>\<close>

definition fallback_note :: pystr where
  "fallback_note = lit ''Hi, I'd love to connect and expand our professional network.''"

definition note_prompt :: "pystr \<Rightarrow> pystr \<Rightarrow> pystr" where
  "note_prompt name position =
     lit ''Generate a brief, professional LinkedIn connection note for '' @ name @ lit '', '' @
     [10] @ lit ''            who is a '' @ position @
     lit ''. Keep it under 200 characters. '' @ [10] @
     lit ''            Do not include any emojis or special characters and just give the output message that can be directly pasted there.''"

definition note_request :: "pystr \<Rightarrow> pystr \<Rightarrow> request" where
  "note_request name position =
     \<lparr>req_url = ''http://localhost:11434/api/generate'', req_model = lit ''llama2'',
      req_prompt = note_prompt name position, req_stream = False\<rparr>"

text \<open>The body of the \<open>try\<close> block (lines 58 to 80).\<close>

definition generate_connection_note_try :: "'w env \<Rightarrow> profile \<Rightarrow> ('w, pystr) prog" where
  "generate_connection_note_try env profile_data =
     bnd (lift (subscript profile_data ''name'')) (\<lambda>name.
     bnd (lift (subscript profile_data ''current_position'')) (\<lambda>position.
     bnd (call (Post (note_request name position))
               (requests_post env (note_request name position))) (\<lambda>response.
       if status_code response = 200 then
         bnd (lift (resp_json response)) (\<lambda>body.
         bnd (lift (json_get body ''response'' (JString []))) (\<lambda>field.
         bnd (lift (json_strip field)) (\<lambda>note.
           andthen
             (if length (clean_text note) > 200
              then py_print ''Warning: Generated note length ({}) exceeds limit. Truncating...''
                     [N (length (clean_text note))]
              else ret ())
             (ret (take 200 (clean_text note))))))
       else
         andthen (py_print ''Error from Ollama API: {}'' [S (resp_text response)])
                 (ret fallback_note))))"

definition generate_connection_note :: "'w env \<Rightarrow> profile \<Rightarrow> ('w, pystr) prog" where
  "generate_connection_note env profile_data =
     try_except (generate_connection_note_try env profile_data)
       (\<lambda>e. andthen (py_print ''Error generating connection note: {}'' [E e])
                     (ret fallback_note))"

subsection \<open>\<open>login\<close>\<close>

definition login_try :: "'w env \<Rightarrow> ('w, bool) prog" where
  "login_try env =
     andthen (py_print ''Logging into LinkedIn...'' [])
    (andthen (call (DriverGet (lit ''https://www.linkedin.com/login''))
                   (driver_get env (lit ''https://www.linkedin.com/login'')))
    (andthen (sleep 2)
    (andthen (py_print ''Entering email...'' [])
    (bnd (call (WaitUntil (PresenceOfElementLocated (ById ''username'')))
               (wait_until env (PresenceOfElementLocated (ById ''username'')))) (\<lambda>email_field.
     bnd (gets email) (\<lambda>em.
     andthen (call (SendKeys email_field em) (send_keys env email_field em))
    (andthen (py_print ''Entering password...'' [])
    (bnd (call (WaitUntil (PresenceOfElementLocated (ById ''password'')))
               (wait_until env (PresenceOfElementLocated (ById ''password'')))) (\<lambda>password_field.
     bnd (gets password) (\<lambda>pw.
     andthen (call (SendKeys password_field pw) (send_keys env password_field pw))
    (andthen (py_print ''Clicking login button...'' [])
    (bnd (call (WaitUntil (ElementToBeClickable (ByCss ''button[type='submit']'')))
               (wait_until env (ElementToBeClickable (ByCss ''button[type='submit']''))))
         (\<lambda>login_button.
     andthen (call (Click login_button) (elem_click env login_button))
    (andthen (sleep 5)
    (bnd (call CurrentUrl (current_url env)) (\<lambda>url1.
       if py_in (lit ''feed'') url1
       then andthen (py_print ''Successfully logged in!'' []) (ret True)
       else
         bnd (call CurrentUrl (current_url env)) (\<lambda>url2.
           if py_in (lit ''mynetwork'') url2
           then andthen (py_print ''Successfully logged in!'' []) (ret True)
           else
             bnd (call CurrentUrl (current_url env)) (\<lambda>url3.
               andthen (py_print ''Login may have failed. Current URL: {}'' [S url3])
                       (ret False)))))))))))))))))))"

definition login :: "'w env \<Rightarrow> ('w, bool) prog" where
  "login env =
     try_except (login_try env)
       (\<lambda>e. andthen (py_print ''Login failed: {}'' [E e]) (ret False))"

subsection \<open>\<open>click_button_safely\<close>\<close>

definition max_attempts :: nat where
  "max_attempts = 3"

text \<open>
  One pass through the body of the \<open>for attempt\<close> loop: \<open>Some True\<close> is \<open>return True\<close>,
  \<open>None\<close> is falling through to the next iteration.
\<close>

definition click_attempt :: "'w env \<Rightarrow> elem \<Rightarrow> string \<Rightarrow> nat \<Rightarrow> ('w, bool option) prog" where
  "click_attempt env button action_name attempt =
     try_except
       (bnd (call (IsDisplayed button) (is_displayed env button)) (\<lambda>displayed.
        bnd (if displayed then call (IsEnabled button) (is_enabled env button) else ret False)
            (\<lambda>ready.
          if ready then
            andthen (call (ExecuteScript (ScrollIntoView button))
                          (execute_script env (ScrollIntoView button)))
           (andthen (sleep 1)
           (andthen (call (ExecuteScript (JsClick button)) (execute_script env (JsClick button)))
           (andthen (py_print ''Successfully clicked {} button'' [A action_name])
                    (ret (Some True)))))
          else ret None)))
       (\<lambda>e. andthen (py_print ''Attempt {} failed to click {} button: {}''
                        [N (attempt + 1), A action_name, E e])
            (andthen (if attempt < max_attempts - 1 then sleep 2 else ret ())
                     (ret None)))"

fun click_attempts :: "'w env \<Rightarrow> elem \<Rightarrow> string \<Rightarrow> nat list \<Rightarrow> ('w, bool) prog" where
  "click_attempts env button action_name [] = ret False"
| "click_attempts env button action_name (attempt # rest) =
     bnd (click_attempt env button action_name attempt)
         (\<lambda>r. case r of Some v \<Rightarrow> ret v
                | None \<Rightarrow> click_attempts env button action_name rest)"

definition click_button_safely :: "'w env \<Rightarrow> elem \<Rightarrow> string \<Rightarrow> ('w, bool) prog" where
  "click_button_safely env button action_name =
     click_attempts env button action_name [0..<max_attempts]"

subsection \<open>\<open>find_and_click_send_button\<close>\<close>

definition possible_selectors :: "string list" where
  "possible_selectors =
     [''button[aria-label*='Send now']'', ''button[aria-label*='send']'',
      ''button[type='submit']'', ''button.artdeco-button--primary'',
      ''.artdeco-modal__confirm-dialog-btn'']"

text \<open>The loops return \<open>True\<close> for \<open>return True\<close> and \<open>False\<close> when they run to their end.\<close>

fun send_buttons_loop :: "'w env \<Rightarrow> elem list \<Rightarrow> ('w, bool) prog" where
  "send_buttons_loop env [] = ret False"
| "send_buttons_loop env (button # rest) =
     bnd (try_except
            (bnd (call (ElemText button) (elem_text env button)) (\<lambda>t.
               if py_in (lit ''send'') (str_lower env t) \<or> py_in (lit ''done'') (str_lower env t)
               then click_button_safely env button ''Send''
               else ret False))
            (\<lambda>e. ret False))
         (\<lambda>clicked. if clicked then ret True else send_buttons_loop env rest)"

fun send_selectors_loop :: "'w env \<Rightarrow> string list \<Rightarrow> ('w, bool) prog" where
  "send_selectors_loop env [] = ret False"
| "send_selectors_loop env (selector # rest) =
     bnd (try_except
            (bnd (call (FindElements selector) (find_elements env selector))
                 (send_buttons_loop env))
            (\<lambda>e. ret False))
         (\<lambda>clicked. if clicked then ret True else send_selectors_loop env rest)"

definition find_and_click_send_button :: "'w env \<Rightarrow> ('w, bool) prog" where
  "find_and_click_send_button env = send_selectors_loop env possible_selectors"

subsection \<open>\<open>connect_with_profile\<close>\<close>

text \<open>Where control goes after a pass through a loop body that contains \<open>return\<close>.\<close>

datatype 'a flow = Continue | Return 'a

definition connect_selector :: string where
  "connect_selector = ''button[aria-label*='Connect'], button[aria-label*='connect']''"

definition add_note_selector :: string where
  "add_note_selector =
     ''button[aria-label*='Add a note'], button[aria-label*='note'], button.artdeco-button--secondary''"

definition possible_textareas :: "string list" where
  "possible_textareas =
     [''textarea#custom-message'', ''textarea.send-invite__custom-message'',
      ''textarea[name='message']'', ''textarea.connect-button-send-invite__custom-message'',
      ''textarea[aria-label*='message']'', ''textarea.artdeco-text-input--input'']"

text \<open>The \<open>for add_note_button\<close> loop; its value is \<open>add_note_clicked\<close>.\<close>

fun add_note_loop :: "'w env \<Rightarrow> elem list \<Rightarrow> ('w, bool) prog" where
  "add_note_loop env [] = ret False"
| "add_note_loop env (add_note_button # rest) =
     bnd (try_except
            (bnd (call (ElemText add_note_button) (elem_text env add_note_button)) (\<lambda>t.
               if py_in (lit ''note'') (str_lower env t) \<or> py_in (lit ''message'') (str_lower env t)
               then click_button_safely env add_note_button ''Add note''
               else ret False))
            (\<lambda>e. ret False))
         (\<lambda>clicked. if clicked then ret True else add_note_loop env rest)"

text \<open>The \<open>for selector in possible_textareas\<close> loop; its value is \<open>textarea_found\<close>.\<close>

definition fill_textarea :: "'w env \<Rightarrow> pystr \<Rightarrow> string \<Rightarrow> ('w, bool) prog" where
  "fill_textarea env note selector =
     try_except
       (bnd (call (WaitUntil (PresenceOfElementLocated (ByCss selector)))
                  (wait_until env (PresenceOfElementLocated (ByCss selector)))) (\<lambda>note_field.
        andthen (call (WaitUntil (ElementToBeClickable (ByCss selector)))
                      (wait_until env (ElementToBeClickable (ByCss selector))))
       (andthen (py_print ''Found textarea using selector: {}'' [A selector])
       (andthen (call (ExecuteScript (ScrollCenter note_field))
                      (execute_script env (ScrollCenter note_field)))
       (andthen (sleep 1)
       (andthen (call (ExecuteScript (SetValue note_field note))
                      (execute_script env (SetValue note_field note)))
       (andthen (call (ExecuteScript (DispatchInput note_field))
                      (execute_script env (DispatchInput note_field)))
                (ret True))))))))
       (\<lambda>e. andthen (py_print ''Failed with selector {}: {}'' [A selector, E e]) (ret False))"

fun textarea_loop :: "'w env \<Rightarrow> pystr \<Rightarrow> string list \<Rightarrow> ('w, bool) prog" where
  "textarea_loop env note [] = ret False"
| "textarea_loop env note (selector # rest) =
     bnd (fill_textarea env note selector)
         (\<lambda>found. if found then ret True else textarea_loop env note rest)"

text \<open>The inner \<open>try\<close> block of the connect-button loop (lines 187 to 295).\<close>

definition note_dialog :: "'w env \<Rightarrow> profile \<Rightarrow> ('w, bool flow) prog" where
  "note_dialog env profile_data =
     try_except
       (andthen (py_print ''Looking for 'Add a note' button...'' [])
       (bnd (call (WaitUntilAll (ByCss add_note_selector))
                  (wait_until_all env (ByCss add_note_selector))) (\<lambda>add_note_buttons.
        bnd (add_note_loop env add_note_buttons) (\<lambda>add_note_clicked.
          if \<not> add_note_clicked
          then andthen (py_print ''Could not click Add note button'' []) (ret Continue)
          else
            andthen (sleep 2)
           (andthen (py_print ''Generating connection note...'' [])
           (bnd (generate_connection_note env profile_data) (\<lambda>note.
            andthen (py_print ''Generated note ({} chars): {}'' [N (length note), S note])
           (bnd (textarea_loop env note possible_textareas) (\<lambda>textarea_found.
              if \<not> textarea_found
              then andthen (py_print ''Could not find note textarea'' []) (ret Continue)
              else
                andthen (sleep 2)
               (andthen (py_print ''Attempting to click send button...'' [])
               (bnd (find_and_click_send_button env) (\<lambda>sent.
                  if sent
                  then andthen (py_print ''Successfully clicked send button'' [])
                      (andthen (sleep 2) (ret (Return True)))
                  else andthen (py_print ''Failed to click send button'' [])
                               (ret (Return False))))))))))))))
       (\<lambda>e. case e of
              TimeoutException \<Rightarrow>
                andthen (py_print ''Timeout while handling note dialog: {}'' [E e]) (ret Continue)
            | _ \<Rightarrow>
                andthen (py_print ''Error while handling note dialog: {}'' [E e]) (ret Continue))"

text \<open>The body of the \<open>for button in connect_buttons\<close> loop (lines 179 to 299).\<close>

definition connect_button_step :: "'w env \<Rightarrow> profile \<Rightarrow> elem \<Rightarrow> ('w, bool flow) prog" where
  "connect_button_step env profile_data button =
     try_except
       (bnd (click_button_safely env button ''Connect'') (\<lambda>clicked.
          if \<not> clicked then ret Continue
          else andthen (sleep 3) (note_dialog env profile_data)))
       (\<lambda>e. andthen (py_print ''Error with connect button: {}'' [E e]) (ret Continue))"

fun connect_buttons_loop :: "'w env \<Rightarrow> profile \<Rightarrow> elem list \<Rightarrow> ('w, bool flow) prog" where
  "connect_buttons_loop env profile_data [] = ret Continue"
| "connect_buttons_loop env profile_data (button # rest) =
     bnd (connect_button_step env profile_data button)
         (\<lambda>f. case f of Return v \<Rightarrow> ret (Return v)
                | Continue \<Rightarrow> connect_buttons_loop env profile_data rest)"

definition connect_with_profile_try :: "'w env \<Rightarrow> pystr \<Rightarrow> profile \<Rightarrow> ('w, bool) prog" where
  "connect_with_profile_try env profile_url profile_data =
     (let url = (if starts_with profile_url (lit ''http'') then profile_url
                 else lit ''https://'' @ profile_url)
      in andthen (py_print ''Navigating to profile: {}'' [S url])
        (andthen (call (DriverGet url) (driver_get env url))
        (andthen (sleep 5)
        (andthen (py_print ''Looking for Connect button...'' [])
        (bnd (call (FindElements connect_selector) (find_elements env connect_selector))
             (\<lambda>connect_buttons.
         bnd (if connect_buttons \<noteq> []
              then andthen (py_print ''Found {} potential connect buttons''
                              [N (length connect_buttons)])
                           (connect_buttons_loop env profile_data connect_buttons)
              else ret Continue)
             (\<lambda>f. case f of
                    Return v \<Rightarrow> ret v
                  | Continue \<Rightarrow>
                      andthen (py_print ''Could not find or click Connect button'' [])
                              (ret False))))))))"

definition connect_with_profile :: "'w env \<Rightarrow> pystr \<Rightarrow> profile \<Rightarrow> ('w, bool) prog" where
  "connect_with_profile env profile_url profile_data =
     try_except (connect_with_profile_try env profile_url profile_data)
       (\<lambda>e. andthen (py_print ''Error connecting with profile: {}'' [E e]) (ret False))"

subsection \<open>\<open>run\<close>\<close>

text \<open>What \<open>run\<close> hands back to its caller: it has no \<open>return\<close> with a value.\<close>

datatype run_value = PyNone | Outcomes "(pystr \<times> bool) list"

text \<open>One pass through the body of \<open>for profile in profiles\<close> (lines 320 to 328).\<close>

definition process_profile :: "'w env \<Rightarrow> profile \<Rightarrow> ('w, unit) prog" where
  "process_profile env profile =
     bnd (lift (subscript profile ''name'')) (\<lambda>name.
     andthen (py_print (CHR 0x0A # ''Processing profile: {}'') [S name])
    (bnd (lift (subscript profile ''url'')) (\<lambda>url.
     bnd (connect_with_profile env url profile) (\<lambda>connected.
     andthen (if connected
              then bnd (lift (subscript profile ''name''))
                       (\<lambda>n. py_print ''Successfully processed {}'' [S n])
              else bnd (lift (subscript profile ''name''))
                       (\<lambda>n. py_print ''Failed to process {}'' [S n]))
    (bnd (random_uniform env 20 40) (\<lambda>delay.
     andthen (py_print ''Waiting {:.0f} seconds before next profile...'' [R delay])
             (sleep delay)))))))"

fun profiles_loop :: "'w env \<Rightarrow> profile list \<Rightarrow> ('w, unit) prog" where
  "profiles_loop env [] = ret ()"
| "profiles_loop env (profile # rest) =
     andthen (process_profile env profile) (profiles_loop env rest)"

definition run_try :: "'w env \<Rightarrow> string \<Rightarrow> ('w, run_value) prog" where
  "run_try env profile_file =
     andthen (setup_driver env)
    (bnd (login env) (\<lambda>logged_in.
       if \<not> logged_in
       then andthen (py_print ''Login failed. Exiting...'' []) (ret PyNone)
       else
         bnd (call (LoadFile profile_file) (json_load_file env profile_file)) (\<lambda>profiles.
         andthen (profiles_loop env profiles) (ret PyNone))))"

definition run_finally :: "'w env \<Rightarrow> ('w, unit) prog" where
  "run_finally env =
     bnd (gets driver) (\<lambda>d.
       if d then andthen (call Quit (driver_quit env)) (py_print ''Browser closed.'' [])
       else ret ())"

definition run :: "'w env \<Rightarrow> string \<Rightarrow> ('w, run_value) prog" where
  "run env profile_file =
     try_finally
       (try_except (run_try env profile_file)
          (\<lambda>e. andthen (py_print ''Error during execution: {}'' [E e]) (ret PyNone)))
       (run_finally env)"

section \<open>The standalone client: \<open>llama_client.py\<close>\<close>

definition text_request :: "pystr \<Rightarrow> pystr \<Rightarrow> request" where
  "text_request prompt model =
     \<lparr>req_url = ''http://localhost:11434/api/generate'', req_model = model,
      req_prompt = prompt, req_stream = False\<rparr>"

definition generate_text_try :: "'w env \<Rightarrow> pystr \<Rightarrow> pystr \<Rightarrow> ('w, pystr) prog" where
  "generate_text_try env prompt model =
     andthen (py_print ''Sending request to Ollama API with model: {}'' [S model])
    (bnd (call (Post (text_request prompt model))
               (requests_post env (text_request prompt model)))
         (\<lambda>response.
       if status_code response = 200 then
         bnd (lift (resp_json response)) (\<lambda>result.
         bnd (lift (json_get result ''response'' (JString []))) (\<lambda>field.
           lift (json_strip field)))
       else
         andthen (py_print ''Error: API returned status code {}'' [N (nat (status_code response))])
        (andthen (py_print ''Response: {}'' [S (resp_text response)])
                 (ret []))))"

definition generate_text :: "'w env \<Rightarrow> pystr \<Rightarrow> pystr \<Rightarrow> ('w, pystr) prog" where
  "generate_text env prompt model =
     try_except (generate_text_try env prompt model)
       (\<lambda>e. case e of
              ConnectionError \<Rightarrow>
                andthen (py_print ''Error: Could not connect to Ollama. Please make sure Ollama is running.'' [])
               (andthen (py_print ''Start Ollama by opening a new terminal and running: ollama run llama2'' [])
                        (ret []))
            | _ \<Rightarrow> andthen (py_print ''Error generating text: {}'' [E e]) (ret []))"

section \<open>Simulated collaborators\<close>

text \<open>
  Concrete worlds on which the program is run below.  The world is a counter of the
  visibility checks made so far.

  \<open>quiet_env\<close>: the browser starts, login lands on the feed, every page is empty (no element
  matches a CSS selector, waits on CSS selectors time out), the generation service is down
  and the profile file holds no profile.
\<close>

definition quiet_env :: "nat env" where
  "quiet_env =
     \<lparr>webdriver_install = (\<lambda>w. (Inr (), w)),
      webdriver_chrome = (\<lambda>opts w. (Inr (), w)),
      driver_get = (\<lambda>url w. (Inr (), w)),
      current_url = (\<lambda>w. (Inr (lit ''https://www.linkedin.com/feed/''), w)),
      find_elements = (\<lambda>sel w. (Inr [], w)),
      execute_script = (\<lambda>js w. (Inr (), w)),
      driver_quit = (\<lambda>w. (Inr (), w)),
      wait_until = (\<lambda>c w. case c of
                       PresenceOfElementLocated (ByCss sel) \<Rightarrow> (Inl TimeoutException, w)
                     | _ \<Rightarrow> (Inr 0, w)),
      wait_until_all = (\<lambda>loc w. (Inl TimeoutException, w)),
      is_displayed = (\<lambda>b w. (Inr True, Suc w)),
      is_enabled = (\<lambda>b w. (Inr True, w)),
      elem_text = (\<lambda>b w. (Inr [], w)),
      send_keys = (\<lambda>b t w. (Inr (), w)),
      elem_click = (\<lambda>b w. (Inr (), w)),
      requests_post = (\<lambda>r w. (Inl ConnectionError, w)),
      json_load_file = (\<lambda>f w. (Inr [], w)),
      random_bits = (\<lambda>w. (0, w)),
      str_lower = (\<lambda>t. t)\<rparr>"

definition start :: "nat state" where
  "start = \<lparr>email = lit ''user@example.com'', password = lit ''secret'', headless = False,
            driver = False, world = 0, trace = []\<rparr>"

text \<open>The profile of the specification's scenario, and the same without its position.\<close>

definition jane :: profile where
  "jane = [''name'' \<mapsto> lit ''Jane Doe'', ''url'' \<mapsto> lit ''linkedin.com/in/janedoe'',
           ''current_position'' \<mapsto> lit ''Engineer'']"

definition jane_without_position :: profile where
  "jane_without_position = [''name'' \<mapsto> lit ''Jane Doe'', ''url'' \<mapsto> lit ''linkedin.com/in/janedoe'']"

text \<open>A healthy generation service that answers every request with the given text.\<close>

definition reply :: "pystr \<Rightarrow> response" where
  "reply t = \<lparr>status_code = 200, resp_text = [], resp_json = Inr (JObject [''response'' \<mapsto> JString t])\<rparr>"

definition reply_env :: "pystr \<Rightarrow> nat env" where
  "reply_env t = quiet_env\<lparr>requests_post := (\<lambda>r w. (Inr (reply t), w))\<rparr>"

text \<open>A generation service that answers with HTTP 500.\<close>

definition failing_env :: "nat env" where
  "failing_env =
     quiet_env\<lparr>requests_post :=
       (\<lambda>r w. (Inr \<lparr>status_code = 500, resp_text = lit ''error'', resp_json = Inl JSONDecodeError\<rparr>, w))\<rparr>"

text \<open>An element that is hidden at the first visibility check and shown from the second on.\<close>

definition late_env :: "nat env" where
  "late_env = quiet_env\<lparr>is_displayed := (\<lambda>b w. (Inr (w \<noteq> 0), Suc w))\<rparr>"

text \<open>An element that is never shown, and one whose scripted click always fails.\<close>

definition hidden_env :: "nat env" where
  "hidden_env = quiet_env\<lparr>is_displayed := (\<lambda>b w. (Inr False, Suc w))\<rparr>"

definition broken_click_env :: "nat env" where
  "broken_click_env =
     quiet_env\<lparr>execute_script :=
       (\<lambda>js w. case js of JsClick b \<Rightarrow> (Inl WebDriverException, w) | _ \<Rightarrow> (Inr (), w))\<rparr>"

text \<open>
  A profile page with one connect button (element 1) and an "add a note" button
  (element 2), both clickable, but no note textarea; the generation service is down.
\<close>

definition no_textarea_env :: "nat env" where
  "no_textarea_env =
     quiet_env\<lparr>find_elements := (\<lambda>sel w. (Inr (if sel = connect_selector then [1] else []), w)),
               wait_until_all := (\<lambda>loc w. (Inr [2], w)),
               elem_text := (\<lambda>b w. (Inr (lit ''add a note''), w))\<rparr>"

text \<open>A profile file with two profiles, and a login that does not reach the feed.\<close>

definition two_profiles_env :: "nat env" where
  "two_profiles_env = quiet_env\<lparr>json_load_file := (\<lambda>f w. (Inr [jane, jane], w))\<rparr>"

definition one_profile_env :: "nat env" where
  "one_profile_env = quiet_env\<lparr>json_load_file := (\<lambda>f w. (Inr [jane], w))\<rparr>"

definition login_rejected_env :: "nat env" where
  "login_rejected_env =
     two_profiles_env\<lparr>current_url := (\<lambda>w. (Inr (lit ''https://www.linkedin.com/login''), w))\<rparr>"

text \<open>A machine on which the browser does not start.\<close>

definition no_browser_env :: "nat env" where
  "no_browser_env = quiet_env\<lparr>webdriver_chrome := (\<lambda>opts w. (Inl WebDriverException, w))\<rparr>"

text \<open>A browser that cannot load any page, and one that cannot search a page.\<close>

definition offline_env :: "nat env" where
  "offline_env = quiet_env\<lparr>driver_get := (\<lambda>url w. (Inl WebDriverException, w))\<rparr>"

definition no_search_env :: "nat env" where
  "no_search_env = quiet_env\<lparr>find_elements := (\<lambda>sel w. (Inl WebDriverException, w))\<rparr>"

text \<open>An element that is shown but disabled, and one that has left the page.\<close>

definition disabled_env :: "nat env" where
  "disabled_env = quiet_env\<lparr>is_enabled := (\<lambda>b w. (Inr False, w))\<rparr>"

definition stale_env :: "nat env" where
  "stale_env = quiet_env\<lparr>is_displayed := (\<lambda>b w. (Inl WebDriverException, Suc w))\<rparr>"

section \<open>Specifications of statements\<close>

text \<open>
  \<open>spec m Q\<close>: from every state, \<open>m\<close> leaves the connector's fields as they are, only
  appends events to the trace, and its result \<open>r\<close> and the appended events \<open>evs\<close>
  satisfy \<open>Q r evs\<close>.  Nothing is said about the world.
\<close>

definition keeps :: "'w state \<Rightarrow> 'w state \<Rightarrow> bool" where
  "keeps s s' \<longleftrightarrow> email s' = email s \<and> password s' = password s \<and>
                 headless s' = headless s \<and> driver s' = driver s"

definition spec :: "('w, 'a) prog \<Rightarrow> ((exn + 'a) \<Rightarrow> event list \<Rightarrow> bool) \<Rightarrow> bool" where
  "spec m Q \<longleftrightarrow>
     (\<forall>s. keeps s (snd (m s)) \<and> (\<exists>evs. trace (snd (m s)) = trace s @ evs \<and> Q (fst (m s)) evs))"

text \<open>Counting in a trace: visibility checks of an element, and two-second backoffs.\<close>

definition checks :: "elem \<Rightarrow> event list \<Rightarrow> nat" where
  "checks b evs = length (filter (\<lambda>e. e = IsDisplayed b) evs)"

definition backoffs :: "event list \<Rightarrow> nat" where
  "backoffs evs = length (filter (\<lambda>e. e = Sleep 2) evs)"

text \<open>The events of an attempt (numbered from 1) whose scripted click raises \<open>e\<close>.\<close>

definition failed_click :: "elem \<Rightarrow> string \<Rightarrow> nat \<Rightarrow> exn \<Rightarrow> event list" where
  "failed_click b a n e =
     [IsDisplayed b, IsEnabled b, ExecuteScript (ScrollIntoView b), Sleep 1,
      ExecuteScript (JsClick b),
      Print ''Attempt {} failed to click {} button: {}'' [N n, A a, E e]]"

text \<open>
  The events that only the send step produces: the announcement of the step, a lookup of
  send-button candidates, and the messages of a click made under the name \<open>Send\<close>.
\<close>

fun send_attempt :: "event \<Rightarrow> bool" where
  "send_attempt (FindElements sel) = (sel \<in> set possible_selectors)"
| "send_attempt (Print fmt args) =
     (fmt = ''Attempting to click send button...'' \<or> A ''Send'' \<in> set args)"
| "send_attempt _ = False"

definition no_send :: "event list \<Rightarrow> bool" where
  "no_send evs = list_all (\<lambda>e. \<not> send_attempt e) evs"

text \<open>
  Reading the trace of a run.  The pacing pauses are the sleeps of at least 20 seconds:
  every settle wait and backoff of the program lasts at most 5 seconds.  The outcome of a
  profile is the line \<open>run\<close> prints for it.
\<close>

fun pause_of :: "event \<Rightarrow> real list" where
  "pause_of (Sleep d) = (if 20 \<le> d then [d] else [])"
| "pause_of _ = []"

definition pauses :: "event list \<Rightarrow> real list" where
  "pauses evs = concat (map pause_of evs)"

fun outcome_of :: "event \<Rightarrow> (pystr \<times> bool) list" where
  "outcome_of (Print fmt [S name]) =
     (if fmt = ''Successfully processed {}'' then [(name, True)]
      else if fmt = ''Failed to process {}'' then [(name, False)] else [])"
| "outcome_of _ = []"

definition outcomes :: "event list \<Rightarrow> (pystr \<times> bool) list" where
  "outcomes evs = concat (map outcome_of evs)"

text \<open>The lines that only \<open>run\<close> prints.\<close>

definition run_messages :: "string list" where
  "run_messages =
     [''Login failed. Exiting...'', CHR 0x0A # ''Processing profile: {}'',
      ''Successfully processed {}'', ''Failed to process {}'',
      ''Waiting {:.0f} seconds before next profile...'', ''Error during execution: {}'',
      ''Browser closed.'']"

text \<open>
  The events of working on a page (logging in, connecting with one profile): driver and
  HTTP calls, short sleeps and the lines of these steps; not the start and the end of the
  browser, the profile file, the random source, a pacing pause or a line of \<open>run\<close>.
\<close>

fun page_event :: "event \<Rightarrow> bool" where
  "page_event (Sleep d) = (d \<le> 5)"
| "page_event (Print fmt args) = (fmt \<notin> set run_messages)"
| "page_event WebdriverInstall = False"
| "page_event (WebdriverChrome opts) = False"
| "page_event Quit = False"
| "page_event (LoadFile f) = False"
| "page_event (RandomUniform a b) = False"
| "page_event _ = True"

definition page_events :: "event list \<Rightarrow> bool" where
  "page_events evs = list_all page_event evs"

text \<open>The events of starting the browser, and the events of the step that connects.\<close>

fun startup_event :: "event \<Rightarrow> bool" where
  "startup_event WebdriverInstall = True"
| "startup_event (WebdriverChrome opts) = True"
| "startup_event (ExecuteScript MaskWebdriver) = True"
| "startup_event _ = False"

fun profile_event :: "event \<Rightarrow> bool" where
  "profile_event (LoadFile f) = True"
| "profile_event (RandomUniform a b) = True"
| "profile_event (Print fmt args) =
     (fmt \<in> set [CHR 0x0A # ''Processing profile: {}'', ''Navigating to profile: {}'',
                 ''Successfully processed {}'', ''Failed to process {}'',
                 ''Waiting {:.0f} seconds before next profile...''])"
| "profile_event _ = False"

definition no_profile :: "event list \<Rightarrow> bool" where
  "no_profile evs = list_all (\<lambda>e. \<not> profile_event e) evs"

text \<open>A profile that \<open>run\<close> can process: it has a name and a URL.\<close>

definition well_formed :: "profile \<Rightarrow> bool" where
  "well_formed p \<longleftrightarrow> p ''name'' \<noteq> None \<and> p ''url'' \<noteq> None"

text \<open>The range of a pacing pause, in seconds.\<close>

definition in_range :: "real \<Rightarrow> bool" where
  "in_range d \<longleftrightarrow> 20 \<le> d \<and> d \<le> 40"

text \<open>The events that need no running browser, and the part of \<open>run\<close> after the setup.\<close>

fun offline_event :: "event \<Rightarrow> bool" where
  "offline_event WebdriverInstall = True"
| "offline_event (WebdriverChrome opts) = True"
| "offline_event (Print fmt args) = True"
| "offline_event _ = False"

definition closing :: "event list \<Rightarrow> bool" where
  "closing rest \<longleftrightarrow> rest = [] \<or> rest = [Print ''Browser closed.'' []]"


text \<open>
  The events of one pass of the loop of \<open>run\<close> over a profile: the announcement, the
  events of connecting, the line with the outcome, and the pacing pause with its draw and
  its line.
\<close>

definition profile_segment :: "profile \<Rightarrow> event list \<Rightarrow> bool" where
  "profile_segment p seg \<longleftrightarrow>
     (\<exists>name body fmt d.
        p ''name'' = Some name \<and>
        seg = Print (CHR 0x0A # ''Processing profile: {}'') [S name] # body @
              [Print fmt [S name], RandomUniform 20 40,
               Print ''Waiting {:.0f} seconds before next profile...'' [R d], Sleep d] \<and>
        page_events body \<and>
        (fmt = ''Successfully processed {}'' \<or> fmt = ''Failed to process {}'') \<and>
        in_range d)"
section \<open>Properties of the text functions\<close>

lemma py_split_Nil [simp]: "py_split [] = []"
  by (simp add: py_split.simps)

lemma py_split_space [simp]: "py_isspace c \<Longrightarrow> py_split (c # cs) = py_split cs"
  by (subst py_split.simps, subst (2) py_split.simps) simp

lemma py_split_word [simp]:
  "\<not> py_isspace c \<Longrightarrow>
   py_split (c # cs) = (c # takeWhile (\<lambda>x. \<not> py_isspace x) cs)
                        # py_split (dropWhile (\<lambda>x. \<not> py_isspace x) cs)"
  by (subst py_split.simps) simp

lemma isspace_32 [simp]: "py_isspace 32"
  by (simp add: py_isspace_def)

lemma isspace_bmp: "py_isspace c \<Longrightarrow> c \<le> 0xFFFF"
  by (auto simp: py_isspace_def)

lemma py_split_words: "list_all word (py_split s)"
proof (induction s rule: py_split.induct)
  case (1 s)
  show ?case
  proof (cases "dropWhile py_isspace s")
    case Nil
    then show ?thesis by (subst py_split.simps) (simp del: dropWhile_eq_Nil_conv)
  next
    case (Cons c cs)
    have nc: "\<not> py_isspace c" using Cons by (metis hd_dropWhile list.sel(1) list.distinct(1))
    have "word (takeWhile (\<lambda>x. \<not> py_isspace x) (c # cs))"
      using nc by (auto simp: word_def list_all_iff dest: set_takeWhileD)
    with 1[OF Cons] Cons show ?thesis by (subst py_split.simps) simp
  qed
qed

lemma py_split_append_word:
  "word w \<Longrightarrow> py_split (w @ 32 # r) = w # py_split r"
proof -
  assume w: "word w"
  then obtain c cs where wc: "w = c # cs" by (cases w) (auto simp: word_def)
  from w wc have nc: "\<not> py_isspace c" and ncs: "\<forall>x\<in>set cs. \<not> py_isspace x"
    by (auto simp: word_def list_all_iff)
  have t: "takeWhile (\<lambda>x. \<not> py_isspace x) (cs @ 32 # r) = cs"
    using ncs by simp
  have d: "dropWhile (\<lambda>x. \<not> py_isspace x) (cs @ 32 # r) = 32 # r"
    using ncs by simp
  show ?thesis using nc t d wc by simp
qed

lemma py_split_single_word: "word w \<Longrightarrow> py_split w = [w]"
proof -
  assume w: "word w"
  then obtain c cs where wc: "w = c # cs" by (cases w) (auto simp: word_def)
  from w wc have nc: "\<not> py_isspace c" and ncs: "\<forall>x\<in>set cs. \<not> py_isspace x"
    by (auto simp: word_def list_all_iff)
  have dt: "dropWhile (\<lambda>x. \<not> py_isspace x) cs = []" "takeWhile (\<lambda>x. \<not> py_isspace x) cs = cs"
    using ncs by simp_all
  show ?thesis by (simp add: wc nc dt)
qed

lemma py_split_join: "list_all word ws \<Longrightarrow> py_split (py_join [32] ws) = ws"
proof (induction ws rule: induct_list012)
  case 1
  then show ?case by simp
next
  case (2 w)
  then show ?case by (simp add: py_split_single_word)
next
  case (3 w v vs)
  then show ?case by (simp add: py_split_append_word)
qed

lemma py_join_bmp:
  "list_all (list_all (\<lambda>c. c \<le> 0xFFFF)) ws \<Longrightarrow> list_all (\<lambda>c. c \<le> 0xFFFF) (py_join [32] ws)"
  by (induction ws rule: induct_list012) auto

lemma py_split_set: "w \<in> set (py_split s) \<Longrightarrow> set w \<subseteq> set s"
proof (induction s arbitrary: w rule: py_split.induct)
  case (1 s)
  show ?case
  proof (cases "dropWhile py_isspace s")
    case Nil
    with 1(2) show ?thesis by (subst (asm) py_split.simps) simp
  next
    case (Cons c cs)
    from 1(2) Cons have "w = takeWhile (\<lambda>x. \<not> py_isspace x) (c # cs)
        \<or> w \<in> set (py_split (dropWhile (\<lambda>x. \<not> py_isspace x) (c # cs)))"
      by (subst (asm) py_split.simps) simp
    then have "set w \<subseteq> set (c # cs)"
    proof
      assume "w = takeWhile (\<lambda>x. \<not> py_isspace x) (c # cs)"
      then show ?thesis by (metis set_takeWhileD subsetI)
    next
      assume "w \<in> set (py_split (dropWhile (\<lambda>x. \<not> py_isspace x) (c # cs)))"
      from 1(1)[OF Cons this] show ?thesis
        by (meson set_dropWhileD subset_iff)
    qed
    moreover have "set (c # cs) \<subseteq> set s" by (metis Cons set_dropWhileD subsetI)
    ultimately show ?thesis by blast
  qed
qed

lemma clean_text_bmp: "list_all (\<lambda>c. c \<le> 0xFFFF) (clean_text t)"
  unfolding clean_text_def
  apply (rule py_join_bmp)
  apply (auto simp: list_all_iff re_sub_non_bmp_def dest!: py_split_set)
  done

lemma filter_id_bmp: "list_all (\<lambda>c. c \<le> 0xFFFF) s \<Longrightarrow> re_sub_non_bmp s = s"
  by (simp add: re_sub_non_bmp_def list_all_iff)

lemma clean_text_idem: "clean_text (clean_text t) = clean_text t"
proof -
  have "re_sub_non_bmp (clean_text t) = clean_text t"
    by (rule filter_id_bmp[OF clean_text_bmp])
  then show ?thesis
    by (simp add: clean_text_def py_split_join py_split_words)
qed

lemma rstrip_Nil [simp]: "py_rstrip [] = []"
  by (simp add: py_rstrip_def)

lemma rstrip_Cons:
  "py_rstrip (c # cs) = (if py_isspace c \<and> py_rstrip cs = [] then [] else c # py_rstrip cs)"
  by (auto simp: py_rstrip_def dropWhile_append)

lemma py_join_Cons:
  "py_join [32] (w # ws) = w @ (case ws of [] \<Rightarrow> [] | _ # _ \<Rightarrow> 32 # py_join [32] ws)"
  by (cases ws) simp_all

lemma collapse_runs_Cons_word:
  "\<not> py_isspace c \<Longrightarrow> collapse_runs (c # cs) = c # collapse_runs cs"
  by (cases cs) simp_all

lemma collapse_runs_lstrip:
  "dropWhile py_isspace (collapse_runs s) = collapse_runs (dropWhile py_isspace s)"
  by (induction s rule: collapse_runs.induct) (auto simp: collapse_runs_Cons_word)

lemma rstrip_collapse_runs:
  "py_rstrip (collapse_runs s) =
     takeWhile (\<lambda>x. \<not> py_isspace x) s @
     (case py_split (dropWhile (\<lambda>x. \<not> py_isspace x) s) of
        [] \<Rightarrow> [] | w # ws \<Rightarrow> 32 # py_join [32] (w # ws))"
proof (induction s rule: collapse_runs.induct)
  case 1
  then show ?case by simp
next
  case (2 c)
  then show ?case by (simp add: rstrip_Cons)
next
  case (3 c d cs)
  show ?case
  proof (cases "py_isspace c")
    case False
    then show ?thesis using 3 by (simp add: rstrip_Cons collapse_runs_Cons_word)
  next
    case c: True
    show ?thesis
    proof (cases "py_isspace d")
      case True
      then show ?thesis using c 3 by simp
    next
      case False
      then show ?thesis using c 3
        by (simp add: rstrip_Cons py_join_Cons collapse_runs_Cons_word del: py_join.simps split: list.splits)
    qed
  qed
qed

lemma join_split_eq_strip_collapse:
  "py_join [32] (py_split s) = py_strip (collapse_runs s)"
proof (cases "dropWhile py_isspace s")
  case Nil
  then show ?thesis
    by (subst py_split.simps)
       (simp add: py_strip_def collapse_runs_lstrip del: dropWhile_eq_Nil_conv)
next
  case (Cons c cs)
  have nc: "\<not> py_isspace c" using Cons by (metis hd_dropWhile list.sel(1) list.distinct(1))
  show ?thesis
    apply (subst py_split.simps)
    apply (simp add: py_strip_def collapse_runs_lstrip Cons rstrip_collapse_runs nc py_join_Cons
                del: py_join.simps)
    apply (auto split: list.splits)
    done
qed


text \<open>
  C2 (as the code has it).  For every input text the output of \<open>clean_text\<close> contains no
  code point outside the Basic Multilingual Plane; it is the input with the non-BMP code
  points removed, every run of whitespace collapsed to a single space and leading and
  trailing whitespace removed; and sanitizing is idempotent.
\<close>

theorem clean_text_sanitizes:
  "list_all (\<lambda>c. c \<le> 0xFFFF) (clean_text t) \<and>
   clean_text t = py_strip (collapse_runs (re_sub_non_bmp t)) \<and>
   clean_text (clean_text t) = clean_text t"
proof -
  have "clean_text t = py_strip (collapse_runs (re_sub_non_bmp t))"
    unfolding clean_text_def by (rule join_split_eq_strip_collapse)
  with clean_text_bmp[of t] clean_text_idem[of t] show ?thesis by blast
qed

text \<open>
  C2 as stated fails on a leading run of whitespace: for the input \<open>" a"\<close> the output is
  \<open>"a"\<close>, where collapsing the run to a single space would give \<open>" a"\<close>.
\<close>

theorem clean_text_leading_space_counterexample:
  "clean_text [0x20, 0x61] = [0x61] \<and>
   clean_text [0x20, 0x61] \<noteq> collapse_runs (re_sub_non_bmp [0x20, 0x61])"
  by (simp add: clean_text_def re_sub_non_bmp_def py_isspace_def)

section \<open>Rules for specifications\<close>

lemmas prog_defs = ret_def lift_def gets_def bnd_def andthen_def try_except_def try_finally_def
  emit_def call_def sleep_def py_print_def

lemma keeps_refl: "keeps s s"
  by (simp add: keeps_def)

lemma keeps_trans: "keeps s s1 \<Longrightarrow> keeps s1 s2 \<Longrightarrow> keeps s s2"
  by (simp add: keeps_def)

lemma spec_ret: "Q (Inr x) [] \<Longrightarrow> spec (ret x) Q"
  by (simp add: spec_def ret_def keeps_def)

lemma spec_lift: "Q r [] \<Longrightarrow> spec (lift r) Q"
  by (simp add: spec_def lift_def keeps_def)

lemma spec_gets: "(\<And>v. Q (Inr v) []) \<Longrightarrow> spec (gets f) Q"
  by (simp add: spec_def gets_def keeps_def)

lemma spec_emit: "Q (Inr ()) [ev] \<Longrightarrow> spec (emit ev) Q"
  by (simp add: spec_def emit_def keeps_def)

lemma spec_sleep: "Q (Inr ()) [Sleep d] \<Longrightarrow> spec (sleep d) Q"
  by (simp add: sleep_def spec_emit)

lemma spec_print: "Q (Inr ()) [Print fmt args] \<Longrightarrow> spec (py_print fmt args) Q"
  by (simp add: py_print_def spec_emit)

lemma spec_call: "(\<And>w. Q (fst (f w)) [ev]) \<Longrightarrow> spec (call ev f) Q"
  by (simp add: spec_def call_def split_beta keeps_def)

lemma spec_bnd:
  assumes "spec m (\<lambda>r e1. case r of Inl e \<Rightarrow> Q (Inl e) e1
                              | Inr x \<Rightarrow> spec (f x) (\<lambda>r e2. Q r (e1 @ e2)))"
  shows "spec (bnd m f) Q"
  unfolding spec_def
proof
  fix s
  obtain e1 where k: "keeps s (snd (m s))" and a: "trace (snd (m s)) = trace s @ e1"
    and b: "case fst (m s) of Inl e \<Rightarrow> Q (Inl e) e1
            | Inr x \<Rightarrow> spec (f x) (\<lambda>r e2. Q r (e1 @ e2))"
    using assms unfolding spec_def by blast
  show "keeps s (snd (bnd m f s)) \<and>
        (\<exists>evs. trace (snd (bnd m f s)) = trace s @ evs \<and> Q (fst (bnd m f s)) evs)"
  proof (cases "fst (m s)")
    case (Inl e)
    then have "bnd m f s = (Inl e, snd (m s))" by (cases "m s") (simp add: bnd_def)
    with k a b Inl show ?thesis by auto
  next
    case (Inr x)
    then have c: "bnd m f s = f x (snd (m s))" by (cases "m s") (simp add: bnd_def)
    from b Inr have "spec (f x) (\<lambda>r e2. Q r (e1 @ e2))" by simp
    then obtain e2 where k2: "keeps (snd (m s)) (snd (f x (snd (m s))))"
      and d: "trace (snd (f x (snd (m s)))) = trace (snd (m s)) @ e2"
      and e: "Q (fst (f x (snd (m s)))) (e1 @ e2)"
      unfolding spec_def by blast
    from d a have "trace (snd (f x (snd (m s)))) = trace s @ (e1 @ e2)" by simp
    with e c keeps_trans[OF k k2] show ?thesis by auto
  qed
qed

lemma spec_andthen:
  "spec m (\<lambda>r e1. case r of Inl e \<Rightarrow> Q (Inl e) e1
                     | Inr x \<Rightarrow> spec n (\<lambda>r e2. Q r (e1 @ e2))) \<Longrightarrow> spec (andthen m n) Q"
  unfolding andthen_def by (rule spec_bnd)

lemma spec_try_except:
  assumes "spec m (\<lambda>r e1. case r of Inr x \<Rightarrow> Q (Inr x) e1
                              | Inl e \<Rightarrow> spec (h e) (\<lambda>r e2. Q r (e1 @ e2)))"
  shows "spec (try_except m h) Q"
  unfolding spec_def
proof
  fix s
  obtain e1 where k: "keeps s (snd (m s))" and a: "trace (snd (m s)) = trace s @ e1"
    and b: "case fst (m s) of Inr x \<Rightarrow> Q (Inr x) e1
            | Inl e \<Rightarrow> spec (h e) (\<lambda>r e2. Q r (e1 @ e2))"
    using assms unfolding spec_def by blast
  show "keeps s (snd (try_except m h s)) \<and>
        (\<exists>evs. trace (snd (try_except m h s)) = trace s @ evs \<and> Q (fst (try_except m h s)) evs)"
  proof (cases "fst (m s)")
    case (Inr x)
    then have "try_except m h s = (Inr x, snd (m s))" by (cases "m s") (simp add: try_except_def)
    with k a b Inr show ?thesis by auto
  next
    case (Inl x)
    then have c: "try_except m h s = h x (snd (m s))" by (cases "m s") (simp add: try_except_def)
    from b Inl have "spec (h x) (\<lambda>r e2. Q r (e1 @ e2))" by simp
    then obtain e2 where k2: "keeps (snd (m s)) (snd (h x (snd (m s))))"
      and d: "trace (snd (h x (snd (m s)))) = trace (snd (m s)) @ e2"
      and e: "Q (fst (h x (snd (m s)))) (e1 @ e2)"
      unfolding spec_def by blast
    from d a have "trace (snd (h x (snd (m s)))) = trace s @ (e1 @ e2)" by simp
    with e c keeps_trans[OF k k2] show ?thesis by auto
  qed
qed

lemma spec_weaken: "spec m P \<Longrightarrow> (\<And>r evs. P r evs \<Longrightarrow> Q r evs) \<Longrightarrow> spec m Q"
  unfolding spec_def by blast

lemma specD:
  "spec m Q \<Longrightarrow> \<exists>evs. trace (snd (m s)) = trace s @ evs \<and> Q (fst (m s)) evs"
  unfolding spec_def by blast

lemma spec_keeps: "spec m Q \<Longrightarrow> keeps s (snd (m s))"
  unfolding spec_def by blast

section \<open>Note generation\<close>

lemma py_strip_spaces: "list_all py_isspace s \<Longrightarrow> py_strip s = []"
proof -
  assume "list_all py_isspace s"
  then have "dropWhile py_isspace s = []" by (simp add: list_all_iff)
  then show ?thesis unfolding py_strip_def by (simp only: rstrip_Nil)
qed

lemma py_strip_no_space: "list_all (\<lambda>c. \<not> py_isspace c) s \<Longrightarrow> py_strip s = s"
proof (cases s)
  case Nil
  then show ?thesis by (simp add: py_strip_def)
next
  case (Cons c cs)
  assume a: "list_all (\<lambda>c. \<not> py_isspace c) s"
  then have "\<not> py_isspace (last s)" using Cons by (simp add: list_all_iff)
  then have "\<not> py_isspace (hd (rev s))" by (simp add: hd_rev)
  moreover have "rev s \<noteq> []" using Cons by simp
  ultimately have "dropWhile py_isspace (rev s) = rev s" by (cases "rev s") auto
  then have "py_rstrip s = s" by (simp add: py_rstrip_def)
  moreover have "dropWhile py_isspace s = s" using a Cons by simp
  ultimately show ?thesis by (simp add: py_strip_def)
qed

lemma clean_text_plain:
  "list_all (\<lambda>c. \<not> py_isspace c) s \<Longrightarrow> list_all (\<lambda>c. c \<le> 0xFFFF) s \<Longrightarrow> clean_text s = s"
proof (cases s)
  case Nil
  then show ?thesis by (simp add: clean_text_def re_sub_non_bmp_def)
next
  case (Cons c cs)
  assume a: "list_all (\<lambda>c. \<not> py_isspace c) s" and b: "list_all (\<lambda>c. c \<le> 0xFFFF) s"
  have "word s" using a Cons by (simp add: word_def)
  then show ?thesis using filter_id_bmp[OF b] by (simp add: clean_text_def py_split_single_word)
qed

lemma clean_text_Nil: "clean_text [] = []"
  by (simp add: clean_text_def re_sub_non_bmp_def)


text \<open>
  C9.  A profile without \<open>name\<close> or without \<open>current_position\<close>: the key lookup raises
  inside the guarded block, so \<open>generate_connection_note\<close> returns the fallback note,
  whatever the generation service would answer.  The only effect is the printed error:
  no HTTP request is made, and no exception reaches the caller.
\<close>

theorem generate_connection_note_missing_key:
  "profile_data ''name'' = None \<or> profile_data ''current_position'' = None \<Longrightarrow>
   generate_connection_note env profile_data s =
     (Inr fallback_note,
      s\<lparr>trace := trace s @ [Print ''Error generating connection note: {}''
           [E (KeyError (if profile_data ''name'' = None then ''name'' else ''current_position''))]]\<rparr>)"
  by (auto simp: generate_connection_note_def generate_connection_note_try_def prog_defs subscript_def
      split: option.splits)

theorem generate_connection_note_missing_key_witness:
  "jane_without_position ''name'' \<noteq> None \<and>
   jane_without_position ''current_position'' = None \<and>
   generate_connection_note (reply_env (lit ''Hello'')) jane_without_position start =
     (Inr fallback_note,
      start\<lparr>trace := [Print ''Error generating connection note: {}'' [E (KeyError ''current_position'')]]\<rparr>)"
  using generate_connection_note_missing_key[of jane_without_position "reply_env (lit ''Hello'')" start]
  by (simp add: jane_without_position_def start_def)

text \<open>
  C4.  \<open>generate_connection_note\<close> never raises; whenever anything raises inside its
  guarded block it returns the fallback note, and so it does when the HTTP call fails or
  answers with a status other than 200.
\<close>

theorem generate_connection_note_fallback:
  "(\<exists>note. fst (generate_connection_note env profile_data s) = Inr note) \<and>
   (isl (fst (generate_connection_note_try env profile_data s)) \<longrightarrow>
      fst (generate_connection_note env profile_data s) = Inr fallback_note) \<and>
   (\<forall>name position.
      profile_data ''name'' = Some name \<and> profile_data ''current_position'' = Some position \<longrightarrow>
      (case fst (requests_post env (note_request name position) (world s)) of
         Inl e \<Rightarrow> fst (generate_connection_note env profile_data s) = Inr fallback_note
       | Inr response \<Rightarrow>
           status_code response \<noteq> 200 \<longrightarrow>
           fst (generate_connection_note env profile_data s) = Inr fallback_note))"
  apply (intro conjI allI impI)
    apply (auto simp: generate_connection_note_def prog_defs split: prod.splits sum.splits)[1]
    apply (auto simp: generate_connection_note_def prog_defs split: prod.splits sum.splits)[1]
  apply (auto simp: generate_connection_note_def generate_connection_note_try_def prog_defs subscript_def
       split: prod.splits sum.splits)
  done

theorem generate_connection_note_fallback_witness:
  "isl (fst (generate_connection_note_try quiet_env jane start)) \<and>
   jane ''name'' = Some (lit ''Jane Doe'') \<and> jane ''current_position'' = Some (lit ''Engineer'') \<and>
   fst (requests_post quiet_env (note_request (lit ''Jane Doe'') (lit ''Engineer'')) (world start))
     = Inl ConnectionError \<and>
   fst (generate_connection_note quiet_env jane start) = Inr fallback_note \<and>
   status_code (reply []\<lparr>status_code := 500\<rparr>) \<noteq> 200"
  using generate_connection_note_fallback[of quiet_env jane start]
  by (simp add: generate_connection_note_try_def prog_defs subscript_def jane_def quiet_env_def reply_def)

text \<open>
  C3 (as the code has it).  The note returned by \<open>generate_connection_note\<close> never has
  more than 200 characters.  When the service answers 200 with a text \<open>r\<close>, the note is
  the first 200 characters of the sanitized \<open>r\<close>, and the length warning is printed exactly
  when the sanitized text (not the raw response) is longer than 200 characters.
\<close>

theorem generate_connection_note_length:
  "(case fst (generate_connection_note env profile_data s) of
      Inl e \<Rightarrow> False | Inr note \<Rightarrow> length note \<le> 200) \<and>
   (\<forall>name position response w' d r.
      profile_data ''name'' = Some name \<and> profile_data ''current_position'' = Some position \<and>
      requests_post env (note_request name position) (world s) = (Inr response, w') \<and>
      status_code response = 200 \<and> resp_json response = Inr (JObject d) \<and>
      d ''response'' = Some (JString r) \<longrightarrow>
      generate_connection_note env profile_data s =
        (Inr (take 200 (clean_text (py_strip r))),
         s\<lparr>world := w',
           trace := trace s @ [Post (note_request name position)] @
             (if length (clean_text (py_strip r)) > 200
              then [Print ''Warning: Generated note length ({}) exceeds limit. Truncating...''
                      [N (length (clean_text (py_strip r)))]]
              else [])\<rparr>))"
  apply (intro conjI allI impI)
  apply (auto simp: generate_connection_note_def generate_connection_note_try_def prog_defs subscript_def
          fallback_note_def lit_def
       split: prod.splits sum.splits option.splits)
  done

theorem generate_connection_note_length_witness:
  "jane ''name'' = Some (lit ''Jane Doe'') \<and> jane ''current_position'' = Some (lit ''Engineer'') \<and>
   requests_post (reply_env (replicate 250 0x61)) (note_request (lit ''Jane Doe'') (lit ''Engineer''))
      (world start) = (Inr (reply (replicate 250 0x61)), 0) \<and>
   status_code (reply (replicate 250 0x61)) = 200 \<and>
   resp_json (reply (replicate 250 0x61)) = Inr (JObject [''response'' \<mapsto> JString (replicate 250 0x61)]) \<and>
   [''response'' \<mapsto> JString (replicate 250 0x61)] ''response'' = Some (JString (replicate 250 0x61)) \<and>
   generate_connection_note (reply_env (replicate 250 0x61)) jane start =
     (Inr (replicate 200 0x61),
      start\<lparr>trace := [Post (note_request (lit ''Jane Doe'') (lit ''Engineer'')),
         Print ''Warning: Generated note length ({}) exceeds limit. Truncating...'' [N 250]]\<rparr>)"
proof -
  have a: "list_all (\<lambda>c. \<not> py_isspace c) (replicate 250 0x61)"
    by (simp add: list_all_iff py_isspace_def)
  have b: "list_all (\<lambda>c. c \<le> 0xFFFF) (replicate 250 (0x61::nat))"
    by (simp add: list_all_iff)
  have c: "clean_text (py_strip (replicate 250 0x61)) = replicate 250 0x61"
    by (simp add: py_strip_no_space[OF a] clean_text_plain[OF a b])
  show ?thesis
    using generate_connection_note_length[of "reply_env (replicate 250 0x61)" jane start]
    by (simp add: c jane_def reply_env_def reply_def quiet_env_def start_def)
qed

text \<open>
  C3 as stated fails for a 250-character BMP response of spaces: it sanitizes to the
  empty text, which is returned, and no warning is printed.
\<close>

theorem generate_connection_note_no_warning_counterexample:
  "generate_connection_note (reply_env (replicate 250 0x20)) jane start =
     (Inr [], start\<lparr>trace := [Post (note_request (lit ''Jane Doe'') (lit ''Engineer''))]\<rparr>)"
proof -
  have "py_strip (replicate 250 0x20) = []"
    by (rule py_strip_spaces) (simp add: list_all_iff)
  then show ?thesis
    by (simp add: generate_connection_note_def generate_connection_note_try_def prog_defs subscript_def
        jane_def reply_env_def reply_def quiet_env_def start_def clean_text_Nil)
qed

section \<open>The standalone client\<close>

text \<open>
  C10.  \<open>generate_text\<close> never raises.  It returns the empty text when the request raises,
  when the status is not 200 and when anything else raises inside its guarded block; on
  status 200 with a JSON object it returns the stripped \<open>response\<close> field, and the empty
  text when the field is absent.
\<close>

theorem generate_text_result:
  "(\<exists>t. fst (generate_text env prompt model s) = Inr t) \<and>
   (isl (fst (generate_text_try env prompt model s)) \<longrightarrow>
      fst (generate_text env prompt model s) = Inr []) \<and>
   (case fst (requests_post env (text_request prompt model) (world s)) of
      Inl e \<Rightarrow> fst (generate_text env prompt model s) = Inr []
    | Inr response \<Rightarrow>
        (status_code response \<noteq> 200 \<longrightarrow> fst (generate_text env prompt model s) = Inr []) \<and>
        (\<forall>d. status_code response = 200 \<and> resp_json response = Inr (JObject d) \<longrightarrow>
           (case d ''response'' of
              None \<Rightarrow> fst (generate_text env prompt model s) = Inr []
            | Some (JString t) \<Rightarrow> fst (generate_text env prompt model s) = Inr (py_strip t)
            | Some _ \<Rightarrow> fst (generate_text env prompt model s) = Inr [])))"
  apply (intro conjI allI impI)
    apply (auto simp: generate_text_def prog_defs split: prod.splits sum.splits exn.splits)[1]
   apply (auto simp: generate_text_def prog_defs split: prod.splits sum.splits exn.splits)[1]
  apply (auto simp: generate_text_def generate_text_try_def prog_defs text_request_def py_strip_def
      split: prod.splits sum.splits exn.splits option.splits json.splits)
  done

theorem generate_text_result_witness:
  "isl (fst (generate_text_try quiet_env (lit ''Hi'') (lit ''llama2'') start)) \<and>
   fst (generate_text quiet_env (lit ''Hi'') (lit ''llama2'') start) = Inr [] \<and>
   status_code (reply [0x20, 0x61, 0x20]) = 200 \<and>
   resp_json (reply [0x20, 0x61, 0x20]) = Inr (JObject [''response'' \<mapsto> JString [0x20, 0x61, 0x20]]) \<and>
   fst (generate_text (reply_env [0x20, 0x61, 0x20]) (lit ''Hi'') (lit ''llama2'') start) = Inr [0x61]"
  using generate_text_result[of quiet_env "lit ''Hi''" "lit ''llama2''" start]
        generate_text_result[of "reply_env [0x20, 0x61, 0x20]" "lit ''Hi''" "lit ''llama2''" start]
  by (simp add: generate_text_try_def prog_defs quiet_env_def reply_env_def reply_def start_def
       py_strip_def py_rstrip_def py_isspace_def)

section \<open>Clicking a button\<close>

lemmas spec_rules = spec_try_except spec_bnd spec_andthen spec_call spec_ret spec_print
  spec_sleep spec_lift spec_gets

lemma click_attempt_spec:
  "spec (click_attempt env b a n)
     (\<lambda>r evs. (r = Inr None \<or> r = Inr (Some True)) \<and> checks b evs = 1 \<and>
               backoffs evs \<le> (if n < max_attempts - 1 then 1 else 0))"
  unfolding click_attempt_def
  apply (rule spec_rules | simp add: checks_def backoffs_def split: sum.split | intro allI impI conjI)+
  done

lemma checks_append: "checks b (xs @ ys) = checks b xs + checks b ys"
  by (simp add: checks_def)

lemma backoffs_append: "backoffs (xs @ ys) = backoffs xs + backoffs ys"
  by (simp add: backoffs_def)

lemma click_attempts_spec:
  "spec (click_attempts env b a ns)
     (\<lambda>r evs. (r = Inr True \<or> r = Inr False \<and> checks b evs = length ns) \<and>
               checks b evs \<le> length ns \<and>
               backoffs evs \<le> length (filter (\<lambda>n. n < max_attempts - 1) ns))"
proof (induction ns)
  case Nil
  show ?case by (simp only: click_attempts.simps, rule spec_ret) (simp add: checks_def backoffs_def)
next
  case (Cons n ns)
  let ?Q = "\<lambda>r evs. (r = Inr True \<or> r = Inr False \<and> checks b evs = length (n # ns)) \<and>
               checks b evs \<le> length (n # ns) \<and>
               backoffs evs \<le> length (filter (\<lambda>n. n < max_attempts - 1) (n # ns))"
  have step: "case r of Inl e \<Rightarrow> ?Q (Inl e) e1
       | Inr x \<Rightarrow> spec (case x of Some v \<Rightarrow> ret v | None \<Rightarrow> click_attempts env b a ns)
                      (\<lambda>r e2. ?Q r (e1 @ e2))"
    if h: "(r = Inr None \<or> r = Inr (Some True)) \<and> checks b e1 = 1 \<and>
           backoffs e1 \<le> (if n < max_attempts - 1 then 1 else 0)" for r e1
  proof -
    from h have c: "checks b e1 = 1" and d: "backoffs e1 \<le> (if n < max_attempts - 1 then 1 else 0)"
      by simp_all
    from h consider "r = Inr None" | "r = Inr (Some True)" by blast
    then show ?thesis
    proof cases
      case 1
      have "spec (click_attempts env b a ns) (\<lambda>r e2. ?Q r (e1 @ e2))"
        by (rule spec_weaken[OF Cons.IH]) (use c d in \<open>auto simp: checks_append backoffs_append\<close>)
      with 1 show ?thesis by simp
    next
      case 2
      have "spec (ret True) (\<lambda>r e2. ?Q r (e1 @ e2))"
        by (rule spec_ret) (use c d in \<open>auto simp: checks_append backoffs_append\<close>)
      with 2 show ?thesis by simp
    qed
  qed
  show ?case
    apply (simp only: click_attempts.simps)
    apply (rule spec_bnd)
    apply (rule spec_weaken[OF click_attempt_spec])
    apply (rule step)
    apply assumption
    done
qed

lemma upt_attempts: "[0..<max_attempts] = [0, 1, 2]"
  by (simp add: max_attempts_def upt_rec)

lemma click_button_safely_spec:
  "spec (click_button_safely env b a)
     (\<lambda>r evs. (r = Inr True \<or> r = Inr False \<and> checks b evs = 3) \<and>
               checks b evs \<le> 3 \<and> backoffs evs \<le> 2)"
  unfolding click_button_safely_def upt_attempts
  by (rule spec_weaken[OF click_attempts_spec]) (simp add: max_attempts_def numeral_3_eq_3 numeral_2_eq_2)

lemma click_hidden_spec:
  assumes "\<forall>w. fst (is_displayed env b w) = Inr False"
  shows "spec (click_button_safely env b a)
           (\<lambda>r evs. r = Inr False \<and> evs = [IsDisplayed b, IsDisplayed b, IsDisplayed b])"
  unfolding click_button_safely_def upt_attempts click_attempts.simps click_attempt_def
  apply (rule spec_rules | simp add: assms split: sum.split | intro allI impI conjI)+
  done

lemma click_broken_spec:
  assumes "\<forall>w. fst (is_displayed env b w) = Inr True" "\<forall>w. fst (is_enabled env b w) = Inr True"
     "\<forall>w. fst (execute_script env (ScrollIntoView b) w) = Inr ()"
     "\<forall>w. isl (fst (execute_script env (JsClick b) w))"
  shows "spec (click_button_safely env b a)
           (\<lambda>r evs. r = Inr False \<and>
              (\<exists>e1 e2 e3. evs = failed_click b a 1 e1 @ [Sleep 2] @ failed_click b a 2 e2 @ [Sleep 2] @
                               failed_click b a 3 e3))"
proof -
  have x: "\<And>w Pl Pr. (case fst (execute_script env (JsClick b) w) of Inl e \<Rightarrow> Pl e | Inr v \<Rightarrow> Pr v)
        = Pl (projl (fst (execute_script env (JsClick b) w)))"
    using assms(4) by (simp add: sum.case_eq_if)
  show ?thesis
    unfolding click_button_safely_def upt_attempts click_attempts.simps click_attempt_def
    apply (rule spec_rules | simp add: assms(1-3) x max_attempts_def failed_click_def | intro allI impI conjI)+
    done
qed


lemma click_disabled_spec:
  assumes "\<forall>w. fst (is_displayed env b w) = Inr True" "\<forall>w. fst (is_enabled env b w) = Inr False"
  shows "spec (click_button_safely env b a)
           (\<lambda>r evs. r = Inr False \<and>
              evs = [IsDisplayed b, IsEnabled b, IsDisplayed b, IsEnabled b, IsDisplayed b, IsEnabled b])"
  unfolding click_button_safely_def upt_attempts click_attempts.simps click_attempt_def
  apply (rule spec_rules | simp add: assms split: sum.split | intro allI impI conjI)+
  done

lemma click_attempt_table:
  "(let d = fst (is_displayed env b (world s));
        w1 = snd (is_displayed env b (world s));
        e = fst (is_enabled env b w1);
        w2 = snd (is_enabled env b w1);
        sc = fst (execute_script env (ScrollIntoView b) w2);
        w3 = snd (execute_script env (ScrollIntoView b) w2);
        cl = fst (execute_script env (JsClick b) w3);
        r = fst (click_attempt env b a n s);
        t = trace (snd (click_attempt env b a n s));
        failed = (\<lambda>x. Print ''Attempt {} failed to click {} button: {}'' [N (n + 1), A a, E x]
                       # (if n < 2 then [Sleep 2] else []))
    in (d = Inr False \<longrightarrow> r = Inr None \<and> t = trace s @ [IsDisplayed b]) \<and>
       (\<forall>x. d = Inl x \<longrightarrow> r = Inr None \<and> t = trace s @ [IsDisplayed b] @ failed x) \<and>
       (d = Inr True \<and> e = Inr False \<longrightarrow>
          r = Inr None \<and> t = trace s @ [IsDisplayed b, IsEnabled b]) \<and>
       (\<forall>x. d = Inr True \<and> e = Inl x \<longrightarrow>
          r = Inr None \<and> t = trace s @ [IsDisplayed b, IsEnabled b] @ failed x) \<and>
       (\<forall>x. d = Inr True \<and> e = Inr True \<and> sc = Inl x \<longrightarrow>
          r = Inr None \<and>
          t = trace s @ [IsDisplayed b, IsEnabled b, ExecuteScript (ScrollIntoView b)] @ failed x) \<and>
       (\<forall>x. d = Inr True \<and> e = Inr True \<and> sc = Inr () \<and> cl = Inl x \<longrightarrow>
          r = Inr None \<and>
          t = trace s @ [IsDisplayed b, IsEnabled b, ExecuteScript (ScrollIntoView b), Sleep 1,
                         ExecuteScript (JsClick b)] @ failed x) \<and>
       (d = Inr True \<and> e = Inr True \<and> sc = Inr () \<and> cl = Inr () \<longrightarrow>
          r = Inr (Some True) \<and>
          t = trace s @ [IsDisplayed b, IsEnabled b, ExecuteScript (ScrollIntoView b), Sleep 1,
                         ExecuteScript (JsClick b),
                         Print ''Successfully clicked {} button'' [A a]]))"
  unfolding Let_def click_attempt_def prog_defs max_attempts_def
  by (simp add: split_beta)

lemma click_loop_unfolded:
  "click_button_safely env b a s =
     (let s1 = snd (click_attempt env b a 0 s);
          s2 = snd (click_attempt env b a 1 s1);
          s3 = snd (click_attempt env b a 2 s2)
      in case fst (click_attempt env b a 0 s) of
           Inl x \<Rightarrow> (Inl x, s1)
         | Inr (Some v) \<Rightarrow> (Inr v, s1)
         | Inr None \<Rightarrow>
            (case fst (click_attempt env b a 1 s1) of
               Inl x \<Rightarrow> (Inl x, s2)
             | Inr (Some v) \<Rightarrow> (Inr v, s2)
             | Inr None \<Rightarrow>
                (case fst (click_attempt env b a 2 s2) of
                   Inl x \<Rightarrow> (Inl x, s3)
                 | Inr (Some v) \<Rightarrow> (Inr v, s3)
                 | Inr None \<Rightarrow> (Inr False, s3))))"
  unfolding click_button_safely_def upt_attempts click_attempts.simps Let_def
  by (simp add: bnd_def ret_def split_beta split: sum.split option.split prod.split)

lemmas click_defs = click_button_safely_def upt_attempts click_attempts.simps click_attempt_def

text \<open>
  C6 (as the code has it).  \<open>click_button_safely\<close> never raises and makes at most three
  attempts, each starting with a visibility check; it returns \<open>False\<close> only after three
  attempts, and sleeps the two-second backoff at most twice.  An attempt that finds the
  element hidden, or shown but disabled, ends without click, without message and without
  backoff, and the next attempt follows: an element that stays hidden is checked three
  times, one that stays disabled is checked for visibility and enabledness three times,
  and the result is \<open>False\<close>.  When the scripted click raises at every attempt, there are
  three attempts with a two-second backoff between them, and the result is \<open>False\<close>.

  What one attempt does is fixed by the answers of the four driver calls it can make: a
  negative check ends it silently; an exception of any of the calls is printed, followed
  by the backoff unless it was the third attempt; only when the element is shown and
  enabled and both scripts run is the click reported and \<open>True\<close> returned.  The call runs
  the attempts 0, 1 and 2 in this order, stops at the first that returns, and returns
  \<open>False\<close> when none does.
\<close>

theorem click_button_safely_attempts:
  "(\<exists>r evs. fst (click_button_safely env b a s) = Inr r \<and>
        trace (snd (click_button_safely env b a s)) = trace s @ evs \<and>
        checks b evs \<le> 3 \<and> (\<not> r \<longrightarrow> checks b evs = 3) \<and> backoffs evs \<le> 2) \<and>
   ((\<forall>w. fst (is_displayed env b w) = Inr False) \<longrightarrow>
      fst (click_button_safely env b a s) = Inr False \<and>
      trace (snd (click_button_safely env b a s)) =
        trace s @ [IsDisplayed b, IsDisplayed b, IsDisplayed b]) \<and>
   ((\<forall>w. fst (is_displayed env b w) = Inr True) \<and> (\<forall>w. fst (is_enabled env b w) = Inr True) \<and>
    (\<forall>w. fst (execute_script env (ScrollIntoView b) w) = Inr ()) \<and>
    (\<forall>w. isl (fst (execute_script env (JsClick b) w))) \<longrightarrow>
      fst (click_button_safely env b a s) = Inr False \<and>
      (\<exists>e1 e2 e3. trace (snd (click_button_safely env b a s)) =
         trace s @ failed_click b a 1 e1 @ [Sleep 2] @ failed_click b a 2 e2 @ [Sleep 2] @
         failed_click b a 3 e3)) \<and>
   ((\<forall>w. fst (is_displayed env b w) = Inr True) \<and> (\<forall>w. fst (is_enabled env b w) = Inr False) \<longrightarrow>
      fst (click_button_safely env b a s) = Inr False \<and>
      trace (snd (click_button_safely env b a s)) =
        trace s @ [IsDisplayed b, IsEnabled b, IsDisplayed b, IsEnabled b,
                   IsDisplayed b, IsEnabled b]) \<and>
   (let d = fst (is_displayed env b (world s));
        w1 = snd (is_displayed env b (world s));
        e = fst (is_enabled env b w1);
        w2 = snd (is_enabled env b w1);
        sc = fst (execute_script env (ScrollIntoView b) w2);
        w3 = snd (execute_script env (ScrollIntoView b) w2);
        cl = fst (execute_script env (JsClick b) w3);
        r = fst (click_attempt env b a n s);
        t = trace (snd (click_attempt env b a n s));
        failed = (\<lambda>x. Print ''Attempt {} failed to click {} button: {}'' [N (n + 1), A a, E x]
                       # (if n < 2 then [Sleep 2] else []))
    in (d = Inr False \<longrightarrow> r = Inr None \<and> t = trace s @ [IsDisplayed b]) \<and>
       (\<forall>x. d = Inl x \<longrightarrow> r = Inr None \<and> t = trace s @ [IsDisplayed b] @ failed x) \<and>
       (d = Inr True \<and> e = Inr False \<longrightarrow>
          r = Inr None \<and> t = trace s @ [IsDisplayed b, IsEnabled b]) \<and>
       (\<forall>x. d = Inr True \<and> e = Inl x \<longrightarrow>
          r = Inr None \<and> t = trace s @ [IsDisplayed b, IsEnabled b] @ failed x) \<and>
       (\<forall>x. d = Inr True \<and> e = Inr True \<and> sc = Inl x \<longrightarrow>
          r = Inr None \<and>
          t = trace s @ [IsDisplayed b, IsEnabled b, ExecuteScript (ScrollIntoView b)] @ failed x) \<and>
       (\<forall>x. d = Inr True \<and> e = Inr True \<and> sc = Inr () \<and> cl = Inl x \<longrightarrow>
          r = Inr None \<and>
          t = trace s @ [IsDisplayed b, IsEnabled b, ExecuteScript (ScrollIntoView b), Sleep 1,
                         ExecuteScript (JsClick b)] @ failed x) \<and>
       (d = Inr True \<and> e = Inr True \<and> sc = Inr () \<and> cl = Inr () \<longrightarrow>
          r = Inr (Some True) \<and>
          t = trace s @ [IsDisplayed b, IsEnabled b, ExecuteScript (ScrollIntoView b), Sleep 1,
                         ExecuteScript (JsClick b),
                         Print ''Successfully clicked {} button'' [A a]])) \<and>
   click_button_safely env b a s =
     (let s1 = snd (click_attempt env b a 0 s);
          s2 = snd (click_attempt env b a 1 s1);
          s3 = snd (click_attempt env b a 2 s2)
      in case fst (click_attempt env b a 0 s) of
           Inl x \<Rightarrow> (Inl x, s1)
         | Inr (Some v) \<Rightarrow> (Inr v, s1)
         | Inr None \<Rightarrow>
            (case fst (click_attempt env b a 1 s1) of
               Inl x \<Rightarrow> (Inl x, s2)
             | Inr (Some v) \<Rightarrow> (Inr v, s2)
             | Inr None \<Rightarrow>
                (case fst (click_attempt env b a 2 s2) of
                   Inl x \<Rightarrow> (Inl x, s3)
                 | Inr (Some v) \<Rightarrow> (Inr v, s3)
                 | Inr None \<Rightarrow> (Inr False, s3))))"
proof (intro conjI)
  from specD[OF click_button_safely_spec, of env b a s]
  show "\<exists>r evs. fst (click_button_safely env b a s) = Inr r \<and>
        trace (snd (click_button_safely env b a s)) = trace s @ evs \<and>
        checks b evs \<le> 3 \<and> (\<not> r \<longrightarrow> checks b evs = 3) \<and> backoffs evs \<le> 2"
    by auto
next
  show "(\<forall>w. fst (is_displayed env b w) = Inr False) \<longrightarrow>
      fst (click_button_safely env b a s) = Inr False \<and>
      trace (snd (click_button_safely env b a s)) =
        trace s @ [IsDisplayed b, IsDisplayed b, IsDisplayed b]"
  proof
    assume h: "\<forall>w. fst (is_displayed env b w) = Inr False"
    from specD[OF click_hidden_spec[OF h], of a s]
    show "fst (click_button_safely env b a s) = Inr False \<and>
      trace (snd (click_button_safely env b a s)) =
        trace s @ [IsDisplayed b, IsDisplayed b, IsDisplayed b]"
      by auto
  qed
next
  show "(\<forall>w. fst (is_displayed env b w) = Inr True) \<and> (\<forall>w. fst (is_enabled env b w) = Inr True) \<and>
    (\<forall>w. fst (execute_script env (ScrollIntoView b) w) = Inr ()) \<and>
    (\<forall>w. isl (fst (execute_script env (JsClick b) w))) \<longrightarrow>
      fst (click_button_safely env b a s) = Inr False \<and>
      (\<exists>e1 e2 e3. trace (snd (click_button_safely env b a s)) =
         trace s @ failed_click b a 1 e1 @ [Sleep 2] @ failed_click b a 2 e2 @ [Sleep 2] @
         failed_click b a 3 e3)"
  proof
    assume h: "(\<forall>w. fst (is_displayed env b w) = Inr True) \<and> (\<forall>w. fst (is_enabled env b w) = Inr True) \<and>
      (\<forall>w. fst (execute_script env (ScrollIntoView b) w) = Inr ()) \<and>
      (\<forall>w. isl (fst (execute_script env (JsClick b) w)))"
    then have "spec (click_button_safely env b a)
           (\<lambda>r evs. r = Inr False \<and>
              (\<exists>e1 e2 e3. evs = failed_click b a 1 e1 @ [Sleep 2] @ failed_click b a 2 e2 @ [Sleep 2] @
                               failed_click b a 3 e3))"
      by (intro click_broken_spec) simp_all
    from specD[OF this, of s]
    show "fst (click_button_safely env b a s) = Inr False \<and>
      (\<exists>e1 e2 e3. trace (snd (click_button_safely env b a s)) =
         trace s @ failed_click b a 1 e1 @ [Sleep 2] @ failed_click b a 2 e2 @ [Sleep 2] @
         failed_click b a 3 e3)"
      by auto
  qed
next
  show "(\<forall>w. fst (is_displayed env b w) = Inr True) \<and> (\<forall>w. fst (is_enabled env b w) = Inr False) \<longrightarrow>
      fst (click_button_safely env b a s) = Inr False \<and>
      trace (snd (click_button_safely env b a s)) =
        trace s @ [IsDisplayed b, IsEnabled b, IsDisplayed b, IsEnabled b,
                   IsDisplayed b, IsEnabled b]"
  proof
    assume h: "(\<forall>w. fst (is_displayed env b w) = Inr True) \<and> (\<forall>w. fst (is_enabled env b w) = Inr False)"
    then have "spec (click_button_safely env b a)
           (\<lambda>r evs. r = Inr False \<and>
              evs = [IsDisplayed b, IsEnabled b, IsDisplayed b, IsEnabled b, IsDisplayed b, IsEnabled b])"
      by (intro click_disabled_spec) simp_all
    from specD[OF this, of s]
    show "fst (click_button_safely env b a s) = Inr False \<and>
      trace (snd (click_button_safely env b a s)) =
        trace s @ [IsDisplayed b, IsEnabled b, IsDisplayed b, IsEnabled b,
                   IsDisplayed b, IsEnabled b]"
      by auto
  qed
next
  show "(let d = fst (is_displayed env b (world s));
        w1 = snd (is_displayed env b (world s));
        e = fst (is_enabled env b w1);
        w2 = snd (is_enabled env b w1);
        sc = fst (execute_script env (ScrollIntoView b) w2);
        w3 = snd (execute_script env (ScrollIntoView b) w2);
        cl = fst (execute_script env (JsClick b) w3);
        r = fst (click_attempt env b a n s);
        t = trace (snd (click_attempt env b a n s));
        failed = (\<lambda>x. Print ''Attempt {} failed to click {} button: {}'' [N (n + 1), A a, E x]
                       # (if n < 2 then [Sleep 2] else []))
    in (d = Inr False \<longrightarrow> r = Inr None \<and> t = trace s @ [IsDisplayed b]) \<and>
       (\<forall>x. d = Inl x \<longrightarrow> r = Inr None \<and> t = trace s @ [IsDisplayed b] @ failed x) \<and>
       (d = Inr True \<and> e = Inr False \<longrightarrow>
          r = Inr None \<and> t = trace s @ [IsDisplayed b, IsEnabled b]) \<and>
       (\<forall>x. d = Inr True \<and> e = Inl x \<longrightarrow>
          r = Inr None \<and> t = trace s @ [IsDisplayed b, IsEnabled b] @ failed x) \<and>
       (\<forall>x. d = Inr True \<and> e = Inr True \<and> sc = Inl x \<longrightarrow>
          r = Inr None \<and>
          t = trace s @ [IsDisplayed b, IsEnabled b, ExecuteScript (ScrollIntoView b)] @ failed x) \<and>
       (\<forall>x. d = Inr True \<and> e = Inr True \<and> sc = Inr () \<and> cl = Inl x \<longrightarrow>
          r = Inr None \<and>
          t = trace s @ [IsDisplayed b, IsEnabled b, ExecuteScript (ScrollIntoView b), Sleep 1,
                         ExecuteScript (JsClick b)] @ failed x) \<and>
       (d = Inr True \<and> e = Inr True \<and> sc = Inr () \<and> cl = Inr () \<longrightarrow>
          r = Inr (Some True) \<and>
          t = trace s @ [IsDisplayed b, IsEnabled b, ExecuteScript (ScrollIntoView b), Sleep 1,
                         ExecuteScript (JsClick b),
                         Print ''Successfully clicked {} button'' [A a]]))"
    by (rule click_attempt_table)
next
  show "click_button_safely env b a s =
     (let s1 = snd (click_attempt env b a 0 s);
          s2 = snd (click_attempt env b a 1 s1);
          s3 = snd (click_attempt env b a 2 s2)
      in case fst (click_attempt env b a 0 s) of
           Inl x \<Rightarrow> (Inl x, s1)
         | Inr (Some v) \<Rightarrow> (Inr v, s1)
         | Inr None \<Rightarrow>
            (case fst (click_attempt env b a 1 s1) of
               Inl x \<Rightarrow> (Inl x, s2)
             | Inr (Some v) \<Rightarrow> (Inr v, s2)
             | Inr None \<Rightarrow>
                (case fst (click_attempt env b a 2 s2) of
                   Inl x \<Rightarrow> (Inl x, s3)
                 | Inr (Some v) \<Rightarrow> (Inr v, s3)
                 | Inr None \<Rightarrow> (Inr False, s3))))"
    by (rule click_loop_unfolded)
qed

theorem click_button_safely_attempts_witness:
  "(\<forall>w. fst (is_displayed hidden_env 1 w) = Inr False) \<and>
   fst (click_button_safely hidden_env 1 ''Connect'' start) = Inr False \<and>
   trace (snd (click_button_safely hidden_env 1 ''Connect'' start)) =
     [IsDisplayed 1, IsDisplayed 1, IsDisplayed 1] \<and>
   (\<forall>w. fst (is_displayed broken_click_env 1 w) = Inr True) \<and>
   (\<forall>w. fst (is_enabled broken_click_env 1 w) = Inr True) \<and>
   (\<forall>w. fst (execute_script broken_click_env (ScrollIntoView 1) w) = Inr ()) \<and>
   (\<forall>w. isl (fst (execute_script broken_click_env (JsClick 1) w))) \<and>
   fst (click_button_safely broken_click_env 1 ''Connect'' start) = Inr False \<and>
   (\<forall>w. fst (is_displayed disabled_env 1 w) = Inr True) \<and>
   (\<forall>w. fst (is_enabled disabled_env 1 w) = Inr False) \<and>
   fst (click_button_safely disabled_env 1 ''Connect'' start) = Inr False \<and>
   trace (snd (click_button_safely disabled_env 1 ''Connect'' start)) =
     [IsDisplayed 1, IsEnabled 1, IsDisplayed 1, IsEnabled 1, IsDisplayed 1, IsEnabled 1] \<and>
   fst (is_displayed stale_env 1 (world start)) = Inl WebDriverException \<and>
   fst (click_attempt stale_env 1 ''Connect'' 0 start) = Inr None \<and>
   trace (snd (click_attempt stale_env 1 ''Connect'' 0 start)) =
     [IsDisplayed 1,
      Print ''Attempt {} failed to click {} button: {}'' [N 1, A ''Connect'', E WebDriverException],
      Sleep 2] \<and>
   fst (click_attempt quiet_env 1 ''Connect'' 0 start) = Inr (Some True)"
proof -
  have h1: "\<forall>w. fst (is_displayed hidden_env 1 w) = Inr False"
    by (simp add: hidden_env_def quiet_env_def)
  have h2: "(\<forall>w. fst (is_displayed broken_click_env 1 w) = Inr True) \<and>
      (\<forall>w. fst (is_enabled broken_click_env 1 w) = Inr True) \<and>
      (\<forall>w. fst (execute_script broken_click_env (ScrollIntoView 1) w) = Inr ()) \<and>
      (\<forall>w. isl (fst (execute_script broken_click_env (JsClick 1) w)))"
    by (simp add: broken_click_env_def quiet_env_def)
  have h3: "(\<forall>w. fst (is_displayed disabled_env 1 w) = Inr True) \<and>
      (\<forall>w. fst (is_enabled disabled_env 1 w) = Inr False)"
    by (simp add: disabled_env_def quiet_env_def)
  have h4: "fst (is_displayed stale_env 1 (world start)) = Inl WebDriverException"
    by (simp add: stale_env_def quiet_env_def)
  have h5: "fst (is_displayed quiet_env 1 (world start)) = Inr True \<and>
      fst (is_enabled quiet_env 1 (snd (is_displayed quiet_env 1 (world start)))) = Inr True \<and>
      fst (execute_script quiet_env (ScrollIntoView 1)
            (snd (is_enabled quiet_env 1 (snd (is_displayed quiet_env 1 (world start)))))) = Inr () \<and>
      fst (execute_script quiet_env (JsClick 1)
            (snd (execute_script quiet_env (ScrollIntoView 1)
              (snd (is_enabled quiet_env 1 (snd (is_displayed quiet_env 1 (world start)))))))) = Inr ()"
    by (simp add: quiet_env_def)
  have t: "trace start = []" by (simp add: start_def)
  have c1: "fst (click_button_safely hidden_env 1 ''Connect'' start) = Inr False \<and>
      trace (snd (click_button_safely hidden_env 1 ''Connect'' start)) =
        [IsDisplayed 1, IsDisplayed 1, IsDisplayed 1]"
    using click_button_safely_attempts[of hidden_env 1 "''Connect''" start 0,
        THEN conjunct2, THEN conjunct1] h1 t by simp
  have c2: "fst (click_button_safely broken_click_env 1 ''Connect'' start) = Inr False"
    using click_button_safely_attempts[of broken_click_env 1 "''Connect''" start 0,
        THEN conjunct2, THEN conjunct2, THEN conjunct1] h2 by blast
  have c3: "fst (click_button_safely disabled_env 1 ''Connect'' start) = Inr False \<and>
      trace (snd (click_button_safely disabled_env 1 ''Connect'' start)) =
        [IsDisplayed 1, IsEnabled 1, IsDisplayed 1, IsEnabled 1, IsDisplayed 1, IsEnabled 1]"
    using click_button_safely_attempts[of disabled_env 1 "''Connect''" start 0,
        THEN conjunct2, THEN conjunct2, THEN conjunct2, THEN conjunct1] h3 t by simp
  have c4: "fst (click_attempt stale_env 1 ''Connect'' 0 start) = Inr None \<and>
      trace (snd (click_attempt stale_env 1 ''Connect'' 0 start)) =
        [IsDisplayed 1,
         Print ''Attempt {} failed to click {} button: {}'' [N 1, A ''Connect'', E WebDriverException],
         Sleep 2]"
    using click_button_safely_attempts[of stale_env 1 "''Connect''" start 0,
        THEN conjunct2, THEN conjunct2, THEN conjunct2, THEN conjunct2, THEN conjunct1] h4 t
    by (simp add: Let_def)
  have c5: "fst (click_attempt quiet_env 1 ''Connect'' 0 start) = Inr (Some True)"
    using click_button_safely_attempts[of quiet_env 1 "''Connect''" start 0,
        THEN conjunct2, THEN conjunct2, THEN conjunct2, THEN conjunct2, THEN conjunct1] h5
    by (simp add: Let_def)
  show ?thesis
    using h1 h2 h3 h4 c1 c2 c3 c4 c5 by simp
qed

text \<open>
  C6 as stated fails: an element hidden at the first check is not given up at once.  The
  loop goes on to its second attempt, finds the element shown, and clicks it.
\<close>

theorem click_button_safely_retry_counterexample:
  "fst (is_displayed late_env 1 (world start)) = Inr False \<and>
   click_button_safely late_env 1 ''Connect'' start =
     (Inr True,
      start\<lparr>world := 2,
            trace := [IsDisplayed 1, IsDisplayed 1, IsEnabled 1, ExecuteScript (ScrollIntoView 1),
                      Sleep 1, ExecuteScript (JsClick 1),
                      Print ''Successfully clicked {} button'' [A ''Connect'']]\<rparr>)"
  by (simp add: click_defs prog_defs late_env_def quiet_env_def start_def)

section \<open>Connecting with a profile\<close>

lemma no_send_Nil [simp]: "no_send []"
  by (simp add: no_send_def)

lemma no_send_Cons [simp]: "no_send (e # evs) \<longleftrightarrow> \<not> send_attempt e \<and> no_send evs"
  by (simp add: no_send_def)

lemma no_send_append [simp]: "no_send (xs @ ys) \<longleftrightarrow> no_send xs \<and> no_send ys"
  by (simp add: no_send_def)

lemma click_attempt_no_send:
  "a \<noteq> ''Send'' \<Longrightarrow>
   spec (click_attempt env b a n) (\<lambda>r evs. \<not> isl r \<and> no_send evs)"
  unfolding click_attempt_def
  apply (rule spec_rules | simp split: sum.split | intro allI impI conjI)+
  done

lemma click_attempts_no_send:
  "a \<noteq> ''Send'' \<Longrightarrow>
   spec (click_attempts env b a ns) (\<lambda>r evs. \<not> isl r \<and> no_send evs)"
proof (induction ns)
  case Nil
  show ?case by (simp only: click_attempts.simps, rule spec_ret) simp
next
  case (Cons n ns)
  show ?case
    apply (simp only: click_attempts.simps)
    apply (rule spec_rules spec_weaken[OF click_attempt_no_send[OF Cons.prems]]
                spec_weaken[OF Cons.IH[OF Cons.prems]]
           | clarsimp split: sum.split option.split | intro allI impI conjI)+
    done
qed

lemma click_button_safely_no_send:
  "a \<noteq> ''Send'' \<Longrightarrow>
   spec (click_button_safely env b a) (\<lambda>r evs. \<not> isl r \<and> no_send evs)"
  unfolding click_button_safely_def by (rule click_attempts_no_send)

lemma add_note_loop_no_send:
  "spec (add_note_loop env bs) (\<lambda>r evs. \<not> isl r \<and> no_send evs)"
proof (induction bs)
  case Nil
  show ?case by (simp only: add_note_loop.simps, rule spec_ret) simp
next
  case (Cons b bs)
  have c: "spec (click_button_safely env b ''Add note'') (\<lambda>r evs. \<not> isl r \<and> no_send evs)"
    by (rule click_button_safely_no_send) simp
  show ?case
    apply (simp only: add_note_loop.simps)
    apply (rule spec_rules spec_weaken[OF c] spec_weaken[OF Cons.IH]
           | clarsimp split: sum.split | intro allI impI conjI)+
    done
qed

lemma generate_connection_note_no_send:
  "spec (generate_connection_note env p) (\<lambda>r evs. \<not> isl r \<and> no_send evs)"
  unfolding generate_connection_note_def generate_connection_note_try_def
  apply (rule spec_rules | simp split: sum.split | intro allI impI conjI)+
  done

lemma send_not_textarea: "sel \<in> set possible_textareas \<Longrightarrow> sel \<noteq> ''Send''"
  by (auto simp: possible_textareas_def)

lemma fill_textarea_absent:
  assumes "sel \<in> set possible_textareas"
    and "\<forall>w. isl (fst (wait_until env (PresenceOfElementLocated (ByCss sel)) w))"
  shows "spec (fill_textarea env note sel) (\<lambda>r evs. r = Inr False \<and> no_send evs)"
proof -
  have x: "\<And>w Pl Pr. (case fst (wait_until env (PresenceOfElementLocated (ByCss sel)) w) of
              Inl e \<Rightarrow> Pl e | Inr v \<Rightarrow> Pr v)
        = Pl (projl (fst (wait_until env (PresenceOfElementLocated (ByCss sel)) w)))"
    using assms(2) by (simp add: sum.case_eq_if)
  show ?thesis
    unfolding fill_textarea_def
    apply (rule spec_rules | simp add: x send_not_textarea[OF assms(1)] send_not_textarea[OF assms(1), symmetric] | intro allI impI conjI)+
    done
qed

lemma textarea_loop_absent:
  assumes "set sels \<subseteq> set possible_textareas"
    and "\<forall>sel\<in>set possible_textareas. \<forall>w. isl (fst (wait_until env (PresenceOfElementLocated (ByCss sel)) w))"
  shows "spec (textarea_loop env note sels) (\<lambda>r evs. r = Inr False \<and> no_send evs)"
  using assms(1)
proof (induction sels)
  case Nil
  show ?case by (simp only: textarea_loop.simps, rule spec_ret) simp
next
  case (Cons sel sels)
  from Cons.prems have m: "sel \<in> set possible_textareas" and r: "set sels \<subseteq> set possible_textareas"
    by simp_all
  from assms(2) m have h: "\<forall>w. isl (fst (wait_until env (PresenceOfElementLocated (ByCss sel)) w))"
    by blast
  show ?case
    apply (simp only: textarea_loop.simps)
    apply (rule spec_rules spec_weaken[OF fill_textarea_absent[OF m h]] spec_weaken[OF Cons.IH[OF r]]
           | clarsimp split: sum.split | intro allI impI conjI)+
    done
qed

lemma note_dialog_absent:
  assumes "\<forall>sel\<in>set possible_textareas. \<forall>w. isl (fst (wait_until env (PresenceOfElementLocated (ByCss sel)) w))"
  shows "spec (note_dialog env p) (\<lambda>r evs. r = Inr Continue \<and> no_send evs)"
  unfolding note_dialog_def
  apply (rule spec_rules spec_weaken[OF add_note_loop_no_send]
              spec_weaken[OF generate_connection_note_no_send]
              spec_weaken[OF textarea_loop_absent[OF subset_refl assms]]
         | clarsimp split: sum.split exn.split | intro allI impI conjI)+
  done

lemma connect_button_step_absent:
  assumes "\<forall>sel\<in>set possible_textareas. \<forall>w. isl (fst (wait_until env (PresenceOfElementLocated (ByCss sel)) w))"
  shows "spec (connect_button_step env p b) (\<lambda>r evs. r = Inr Continue \<and> no_send evs)"
proof -
  have c: "spec (click_button_safely env b ''Connect'') (\<lambda>r evs. \<not> isl r \<and> no_send evs)"
    by (rule click_button_safely_no_send) simp
  show ?thesis
    unfolding connect_button_step_def
    apply (rule spec_rules spec_weaken[OF c] spec_weaken[OF note_dialog_absent[OF assms]]
           | clarsimp split: sum.split | intro allI impI conjI)+
    done
qed

lemma connect_buttons_loop_absent:
  assumes "\<forall>sel\<in>set possible_textareas. \<forall>w. isl (fst (wait_until env (PresenceOfElementLocated (ByCss sel)) w))"
  shows "spec (connect_buttons_loop env p bs) (\<lambda>r evs. r = Inr Continue \<and> no_send evs)"
proof (induction bs)
  case Nil
  show ?case by (simp only: connect_buttons_loop.simps, rule spec_ret) simp
next
  case (Cons b bs)
  show ?case
    apply (simp only: connect_buttons_loop.simps)
    apply (rule spec_rules spec_weaken[OF connect_button_step_absent[OF assms]] spec_weaken[OF Cons.IH]
           | clarsimp split: sum.split | intro allI impI conjI)+
    done
qed

lemma connect_selector_not_send: "connect_selector \<notin> set possible_selectors"
  by (simp add: connect_selector_def possible_selectors_def)

lemma connect_with_profile_absent:
  assumes "\<forall>sel\<in>set possible_textareas. \<forall>w. isl (fst (wait_until env (PresenceOfElementLocated (ByCss sel)) w))"
  shows "spec (connect_with_profile env url p) (\<lambda>r evs. r = Inr False \<and> no_send evs)"
  unfolding connect_with_profile_def connect_with_profile_try_def Let_def
  apply (rule spec_rules spec_weaken[OF connect_buttons_loop_absent[OF assms]]
         | clarsimp simp: connect_selector_not_send split: sum.split | intro allI impI conjI)+
  done

lemma connect_with_profile_returns: "\<not> isl (fst (connect_with_profile env url p s))"
  by (simp add: connect_with_profile_def try_except_def andthen_def bnd_def py_print_def emit_def
      ret_def split: prod.split sum.split)


text \<open>Exceptions that reach the outer \<open>try\<close> of \<open>connect_with_profile\<close>.\<close>

lemma connect_with_profile_escaped:
  "fst (connect_with_profile_try env url p s) = Inl e \<Longrightarrow>
   connect_with_profile env url p s =
     (Inr False,
      (snd (connect_with_profile_try env url p s))
        \<lparr>trace := trace (snd (connect_with_profile_try env url p s)) @
                   [Print ''Error connecting with profile: {}'' [E e]]\<rparr>)"
  by (cases "connect_with_profile_try env url p s")
     (simp add: connect_with_profile_def prog_defs)

lemma connect_with_profile_passed:
  "fst (connect_with_profile_try env url p s) = Inr v \<Longrightarrow>
   connect_with_profile env url p s = connect_with_profile_try env url p s"
  by (cases "connect_with_profile_try env url p s")
     (simp add: connect_with_profile_def prog_defs)

lemma sum_case_isl: "isl x \<Longrightarrow> (case x of Inl e \<Rightarrow> Pl e | Inr v \<Rightarrow> Pr v) = Pl (projl x)"
  by (cases x) simp_all

lemma connect_navigation_fails:
  assumes "\<forall>u w. isl (fst (driver_get env u w))"
  shows "spec (connect_with_profile_try env url p) (\<lambda>r evs. isl r)"
  unfolding connect_with_profile_try_def Let_def
  apply (rule spec_rules | simp add: sum_case_isl[OF assms[rule_format]] | intro allI impI conjI)+
  done

lemma connect_search_fails:
  assumes "\<forall>w. isl (fst (find_elements env connect_selector w))"
  shows "spec (connect_with_profile_try env url p) (\<lambda>r evs. isl r)"
  unfolding connect_with_profile_try_def Let_def
  apply (rule spec_rules | simp add: sum_case_isl[OF assms[rule_format]] split: sum.split
         | intro allI impI conjI)+
  done


text \<open>
  C8.  \<open>connect_with_profile\<close> never raises: an exception that escapes from any step of
  its guarded block (a failed page load, a failed search for the connect buttons, ...) is
  printed and turned into the result \<open>False\<close>, and a result of the block is passed on
  unchanged.  When no selector of the note-textarea list matches (the wait for its presence
  fails for every candidate, in every state of the page), it returns \<open>False\<close> and the
  trace shows no event of the send step: no lookup of send-button candidates and no click
  under the name \<open>Send\<close>.
\<close>

theorem connect_with_profile_no_textarea:
  "\<not> isl (fst (connect_with_profile env url p s)) \<and>
   ((\<forall>sel\<in>set possible_textareas.
       \<forall>w. isl (fst (wait_until env (PresenceOfElementLocated (ByCss sel)) w))) \<longrightarrow>
    fst (connect_with_profile env url p s) = Inr False \<and>
    (\<exists>evs. trace (snd (connect_with_profile env url p s)) = trace s @ evs \<and> no_send evs)) \<and>
   (\<forall>e. fst (connect_with_profile_try env url p s) = Inl e \<longrightarrow>
      connect_with_profile env url p s =
        (Inr False,
         (snd (connect_with_profile_try env url p s))
           \<lparr>trace := trace (snd (connect_with_profile_try env url p s)) @
                      [Print ''Error connecting with profile: {}'' [E e]]\<rparr>)) \<and>
   (\<forall>v. fst (connect_with_profile_try env url p s) = Inr v \<longrightarrow>
      connect_with_profile env url p s = connect_with_profile_try env url p s) \<and>
   ((\<forall>u w. isl (fst (driver_get env u w))) \<longrightarrow>
      isl (fst (connect_with_profile_try env url p s)) \<and>
      fst (connect_with_profile env url p s) = Inr False) \<and>
   ((\<forall>w. isl (fst (find_elements env connect_selector w))) \<longrightarrow>
      isl (fst (connect_with_profile_try env url p s)) \<and>
      fst (connect_with_profile env url p s) = Inr False)"
proof (intro conjI impI allI)
  show "\<not> isl (fst (connect_with_profile env url p s))"
    by (rule connect_with_profile_returns)
next
  assume h: "\<forall>sel\<in>set possible_textareas.
       \<forall>w. isl (fst (wait_until env (PresenceOfElementLocated (ByCss sel)) w))"
  from specD[OF connect_with_profile_absent[OF h], of url p s]
  show "fst (connect_with_profile env url p s) = Inr False"
    and "\<exists>evs. trace (snd (connect_with_profile env url p s)) = trace s @ evs \<and> no_send evs"
    by auto
next
  fix e
  assume "fst (connect_with_profile_try env url p s) = Inl e"
  then show "connect_with_profile env url p s =
        (Inr False,
         (snd (connect_with_profile_try env url p s))
           \<lparr>trace := trace (snd (connect_with_profile_try env url p s)) @
                      [Print ''Error connecting with profile: {}'' [E e]]\<rparr>)"
    by (rule connect_with_profile_escaped)
next
  fix v
  assume "fst (connect_with_profile_try env url p s) = Inr v"
  then show "connect_with_profile env url p s = connect_with_profile_try env url p s"
    by (rule connect_with_profile_passed)
next
  assume h: "\<forall>u w. isl (fst (driver_get env u w))"
  from specD[OF connect_navigation_fails[OF h], of url p s]
  show a: "isl (fst (connect_with_profile_try env url p s))" by auto
  then obtain e where "fst (connect_with_profile_try env url p s) = Inl e"
    by (auto simp: isl_def)
  from connect_with_profile_escaped[OF this]
  show "fst (connect_with_profile env url p s) = Inr False" by simp
next
  assume h: "\<forall>w. isl (fst (find_elements env connect_selector w))"
  from specD[OF connect_search_fails[OF h], of url p s]
  show a: "isl (fst (connect_with_profile_try env url p s))" by auto
  then obtain e where "fst (connect_with_profile_try env url p s) = Inl e"
    by (auto simp: isl_def)
  from connect_with_profile_escaped[OF this]
  show "fst (connect_with_profile env url p s) = Inr False" by simp
qed

theorem connect_with_profile_no_textarea_witness:
  "list_all (\<lambda>sel. \<forall>w. isl (fst (wait_until no_textarea_env (PresenceOfElementLocated (ByCss sel)) w)))
     possible_textareas \<and>
   fst (connect_with_profile no_textarea_env (lit ''linkedin.com/in/janedoe'') jane start) = Inr False \<and>
   (\<forall>u w. isl (fst (driver_get offline_env u w))) \<and>
   fst (connect_with_profile_try offline_env (lit ''linkedin.com/in/janedoe'') jane start)
     = Inl WebDriverException \<and>
   connect_with_profile offline_env (lit ''linkedin.com/in/janedoe'') jane start =
     (Inr False,
      start\<lparr>trace := [Print ''Navigating to profile: {}'' [S (lit ''https://linkedin.com/in/janedoe'')],
                       DriverGet (lit ''https://linkedin.com/in/janedoe''),
                       Print ''Error connecting with profile: {}'' [E WebDriverException]]\<rparr>) \<and>
   (\<forall>w. isl (fst (find_elements no_search_env connect_selector w))) \<and>
   fst (connect_with_profile no_search_env (lit ''linkedin.com/in/janedoe'') jane start) = Inr False"
proof -
  let ?url = "lit ''linkedin.com/in/janedoe''"
  have h1: "\<forall>sel\<in>set possible_textareas.
      \<forall>w. isl (fst (wait_until no_textarea_env (PresenceOfElementLocated (ByCss sel)) w))"
    by (simp add: no_textarea_env_def quiet_env_def)
  have h2: "\<forall>u w. isl (fst (driver_get offline_env u w))"
    by (simp add: offline_env_def quiet_env_def)
  have h3: "\<forall>w. isl (fst (find_elements no_search_env connect_selector w))"
    by (simp add: no_search_env_def quiet_env_def)
  have t: "connect_with_profile_try offline_env ?url jane start =
     (Inl WebDriverException,
      start\<lparr>trace := [Print ''Navigating to profile: {}'' [S (lit ''https://linkedin.com/in/janedoe'')],
                       DriverGet (lit ''https://linkedin.com/in/janedoe'')]\<rparr>)"
    by (simp add: connect_with_profile_try_def Let_def prog_defs offline_env_def quiet_env_def
        start_def lit_def)
  have c1: "fst (connect_with_profile no_textarea_env ?url jane start) = Inr False"
    using connect_with_profile_no_textarea[of no_textarea_env ?url jane start] h1 by blast
  have c2: "connect_with_profile offline_env ?url jane start =
     (Inr False,
      start\<lparr>trace := [Print ''Navigating to profile: {}'' [S (lit ''https://linkedin.com/in/janedoe'')],
                       DriverGet (lit ''https://linkedin.com/in/janedoe''),
                       Print ''Error connecting with profile: {}'' [E WebDriverException]]\<rparr>)"
    using connect_with_profile_no_textarea[of offline_env ?url jane start] t by simp
  have c3: "fst (connect_with_profile no_search_env ?url jane start) = Inr False"
    using connect_with_profile_no_textarea[of no_search_env ?url jane start] h3 by blast
  show ?thesis
    using h1 h2 h3 t c1 c2 c3 by (simp add: list_all_iff)
qed

section \<open>A run over the profiles\<close>

lemma page_events_Nil [simp]: "page_events []"
  by (simp add: page_events_def)

lemma page_events_Cons [simp]: "page_events (e # evs) \<longleftrightarrow> page_event e \<and> page_events evs"
  by (simp add: page_events_def)

lemma page_events_append [simp]: "page_events (xs @ ys) \<longleftrightarrow> page_events xs \<and> page_events ys"
  by (simp add: page_events_def)

lemma no_profile_Nil [simp]: "no_profile []"
  by (simp add: no_profile_def)

lemma no_profile_Cons [simp]: "no_profile (e # evs) \<longleftrightarrow> \<not> profile_event e \<and> no_profile evs"
  by (simp add: no_profile_def)

lemma no_profile_append [simp]: "no_profile (xs @ ys) \<longleftrightarrow> no_profile xs \<and> no_profile ys"
  by (simp add: no_profile_def)

lemma login_spec:
  "spec (login env) (\<lambda>r evs. \<not> isl r \<and> page_events evs \<and> no_profile evs)"
  unfolding login_def login_try_def
  apply (rule spec_rules | simp add: run_messages_def split: sum.split | intro allI impI conjI)+
  done

lemma click_attempt_page:
  "spec (click_attempt env b a n) (\<lambda>r evs. \<not> isl r \<and> page_events evs)"
  unfolding click_attempt_def
  apply (rule spec_rules | simp add: run_messages_def split: sum.split | intro allI impI conjI)+
  done

lemma click_attempts_page:
  "spec (click_attempts env b a ns) (\<lambda>r evs. \<not> isl r \<and> page_events evs)"
proof (induction ns)
  case Nil
  show ?case by (simp only: click_attempts.simps, rule spec_ret) simp
next
  case (Cons n ns)
  show ?case
    apply (simp only: click_attempts.simps)
    apply (rule spec_rules spec_weaken[OF click_attempt_page] spec_weaken[OF Cons.IH]
           | clarsimp split: sum.split option.split | intro allI impI conjI)+
    done
qed

lemma click_button_safely_page:
  "spec (click_button_safely env b a) (\<lambda>r evs. \<not> isl r \<and> page_events evs)"
  unfolding click_button_safely_def by (rule click_attempts_page)

lemma send_buttons_loop_page:
  "spec (send_buttons_loop env bs) (\<lambda>r evs. \<not> isl r \<and> page_events evs)"
proof (induction bs)
  case Nil
  show ?case by (simp only: send_buttons_loop.simps, rule spec_ret) simp
next
  case (Cons b bs)
  show ?case
    apply (simp only: send_buttons_loop.simps)
    apply (rule spec_rules spec_weaken[OF click_button_safely_page] spec_weaken[OF Cons.IH]
           | clarsimp split: sum.split | intro allI impI conjI)+
    done
qed

lemma send_selectors_loop_page:
  "spec (send_selectors_loop env sels) (\<lambda>r evs. \<not> isl r \<and> page_events evs)"
proof (induction sels)
  case Nil
  show ?case by (simp only: send_selectors_loop.simps, rule spec_ret) simp
next
  case (Cons sel sels)
  show ?case
    apply (simp only: send_selectors_loop.simps)
    apply (rule spec_rules spec_weaken[OF send_buttons_loop_page] spec_weaken[OF Cons.IH]
           | clarsimp split: sum.split | intro allI impI conjI)+
    done
qed

lemma find_and_click_send_button_page:
  "spec (find_and_click_send_button env) (\<lambda>r evs. \<not> isl r \<and> page_events evs)"
  unfolding find_and_click_send_button_def by (rule send_selectors_loop_page)

lemma add_note_loop_page:
  "spec (add_note_loop env bs) (\<lambda>r evs. \<not> isl r \<and> page_events evs)"
proof (induction bs)
  case Nil
  show ?case by (simp only: add_note_loop.simps, rule spec_ret) simp
next
  case (Cons b bs)
  show ?case
    apply (simp only: add_note_loop.simps)
    apply (rule spec_rules spec_weaken[OF click_button_safely_page] spec_weaken[OF Cons.IH]
           | clarsimp split: sum.split | intro allI impI conjI)+
    done
qed

lemma generate_connection_note_page:
  "spec (generate_connection_note env p) (\<lambda>r evs. \<not> isl r \<and> page_events evs)"
  unfolding generate_connection_note_def generate_connection_note_try_def
  apply (rule spec_rules | simp add: run_messages_def split: sum.split | intro allI impI conjI)+
  done

lemma fill_textarea_page:
  "spec (fill_textarea env note sel) (\<lambda>r evs. \<not> isl r \<and> page_events evs)"
  unfolding fill_textarea_def
  apply (rule spec_rules | simp add: run_messages_def split: sum.split | intro allI impI conjI)+
  done

lemma textarea_loop_page:
  "spec (textarea_loop env note sels) (\<lambda>r evs. \<not> isl r \<and> page_events evs)"
proof (induction sels)
  case Nil
  show ?case by (simp only: textarea_loop.simps, rule spec_ret) simp
next
  case (Cons sel sels)
  show ?case
    apply (simp only: textarea_loop.simps)
    apply (rule spec_rules spec_weaken[OF fill_textarea_page] spec_weaken[OF Cons.IH]
           | clarsimp split: sum.split | intro allI impI conjI)+
    done
qed

lemma note_dialog_page:
  "spec (note_dialog env p) (\<lambda>r evs. \<not> isl r \<and> page_events evs)"
  unfolding note_dialog_def
  apply (rule spec_rules spec_weaken[OF add_note_loop_page]
              spec_weaken[OF generate_connection_note_page]
              spec_weaken[OF textarea_loop_page]
              spec_weaken[OF find_and_click_send_button_page]
         | clarsimp simp: run_messages_def split: sum.split exn.split | intro allI impI conjI)+
  done

lemma connect_button_step_page:
  "spec (connect_button_step env p b) (\<lambda>r evs. \<not> isl r \<and> page_events evs)"
  unfolding connect_button_step_def
  apply (rule spec_rules spec_weaken[OF click_button_safely_page] spec_weaken[OF note_dialog_page]
         | clarsimp simp: run_messages_def split: sum.split | intro allI impI conjI)+
  done

lemma connect_buttons_loop_page:
  "spec (connect_buttons_loop env p bs) (\<lambda>r evs. \<not> isl r \<and> page_events evs)"
proof (induction bs)
  case Nil
  show ?case by (simp only: connect_buttons_loop.simps, rule spec_ret) simp
next
  case (Cons b bs)
  show ?case
    apply (simp only: connect_buttons_loop.simps)
    apply (rule spec_rules spec_weaken[OF connect_button_step_page] spec_weaken[OF Cons.IH]
           | clarsimp split: sum.split flow.split | intro allI impI conjI)+
    done
qed

lemma connect_with_profile_page:
  "spec (connect_with_profile env url p) (\<lambda>r evs. \<not> isl r \<and> page_events evs)"
  unfolding connect_with_profile_def connect_with_profile_try_def Let_def
  apply (rule spec_rules spec_weaken[OF connect_buttons_loop_page]
         | clarsimp simp: run_messages_def split: sum.split flow.split | intro allI impI conjI)+
  done

lemma pauses_Nil [simp]: "pauses [] = []"
  by (simp add: pauses_def)

lemma pauses_Cons [simp]: "pauses (e # evs) = pause_of e @ pauses evs"
  by (simp add: pauses_def)

lemma pauses_append [simp]: "pauses (xs @ ys) = pauses xs @ pauses ys"
  by (simp add: pauses_def)

lemma outcomes_Nil [simp]: "outcomes [] = []"
  by (simp add: outcomes_def)

lemma outcomes_Cons [simp]: "outcomes (e # evs) = outcome_of e @ outcomes evs"
  by (simp add: outcomes_def)

lemma outcomes_append [simp]: "outcomes (xs @ ys) = outcomes xs @ outcomes ys"
  by (simp add: outcomes_def)

lemma page_event_quiet: "page_event e \<Longrightarrow> pause_of e = [] \<and> outcome_of e = []"
  by (cases e rule: outcome_of.cases) (auto simp: run_messages_def)

lemma page_events_pauses: "page_events evs \<Longrightarrow> pauses evs = []"
  by (induction evs) (auto simp: page_event_quiet)

lemma page_events_outcomes: "page_events evs \<Longrightarrow> outcomes evs = []"
  by (induction evs) (auto simp: page_event_quiet)

lemma py_random_range: "0 \<le> py_random bits \<and> py_random bits < 1"
  by (simp add: py_random_def)

lemma py_random_nonneg: "0 \<le> py_random bits"
  by (simp add: py_random_def)

lemma random_uniform_range: "in_range (20 + 20 * py_random bits)"
  using py_random_range[of bits] by (simp add: in_range_def)

lemma page_events_no_quit: "page_events evs \<Longrightarrow> Quit \<notin> set evs"
  by (auto simp: page_events_def list_all_iff)

lemma startup_no_quit: "list_all startup_event evs \<Longrightarrow> Quit \<notin> set evs"
  by (auto simp: list_all_iff)

text \<open>One pass of the loop of \<open>run\<close>, from the result of \<open>connect_with_profile\<close>.\<close>

lemma process_profile_exact:
  assumes n: "p ''name'' = Some name" and u: "p ''url'' = Some url"
    and c: "connect_with_profile env url p
              (s\<lparr>trace := trace s @ [Print (CHR 0x0A # ''Processing profile: {}'') [S name]]\<rparr>)
            = (Inr ok, s')"
  shows "process_profile env p s =
           (Inr (),
            s'\<lparr>world := snd (random_bits env (world s')),
               trace := trace s' @
                 [Print (if ok then ''Successfully processed {}'' else ''Failed to process {}'')
                    [S name],
                  RandomUniform 20 40,
                  Print ''Waiting {:.0f} seconds before next profile...''
                    [R (20 + 20 * py_random (fst (random_bits env (world s'))))],
                  Sleep (20 + 20 * py_random (fst (random_bits env (world s'))))]\<rparr>)"
  unfolding process_profile_def random_uniform_def prog_defs
  using c by (simp add: subscript_def n u split_beta)

lemma process_profile_segment:
  assumes "well_formed p"
  shows "spec (process_profile env p) (\<lambda>r evs. r = Inr () \<and> profile_segment p evs)"
proof -
  obtain name url where n: "p ''name'' = Some name" and u: "p ''url'' = Some url"
    using assms by (auto simp: well_formed_def)
  show ?thesis
    unfolding spec_def
  proof
    fix s :: "'a state"
    let ?s0 = "s\<lparr>trace := trace s @ [Print (CHR 0x0A # ''Processing profile: {}'') [S name]]\<rparr>"
    let ?c = "connect_with_profile env url p ?s0"
    let ?d = "20 + 20 * py_random (fst (random_bits env (world (snd ?c))))"
    obtain ok where r: "fst ?c = Inr ok"
      using connect_with_profile_returns[of env url p ?s0] by (cases "fst ?c") auto
    then have c: "?c = (Inr ok, snd ?c)" by (simp add: prod_eq_iff)
    from specD[OF connect_with_profile_page, of env url p ?s0] obtain body where
      t: "trace (snd ?c) = trace ?s0 @ body" and pg: "page_events body" by blast
    from spec_keeps[OF connect_with_profile_page, of ?s0 env url p]
    have k: "keeps ?s0 (snd ?c)" .
    note e = process_profile_exact[OF n u c]
    have seg: "profile_segment p
        (Print (CHR 0x0A # ''Processing profile: {}'') [S name] # body @
         [Print (if ok then ''Successfully processed {}'' else ''Failed to process {}'') [S name],
          RandomUniform 20 40,
          Print ''Waiting {:.0f} seconds before next profile...'' [R ?d], Sleep ?d])"
      unfolding profile_segment_def
      apply (rule exI[of _ name], rule exI[of _ body])
      apply (rule exI[of _ "if ok then ''Successfully processed {}'' else ''Failed to process {}''"])
      apply (rule exI[of _ ?d])
      using n pg by (simp add: random_uniform_range)
    show "keeps s (snd (process_profile env p s)) \<and>
          (\<exists>evs. trace (snd (process_profile env p s)) = trace s @ evs \<and>
                 fst (process_profile env p s) = Inr () \<and> profile_segment p evs)"
    proof (intro conjI)
      show "keeps s (snd (process_profile env p s))"
        using k by (simp add: e keeps_def)
      show "\<exists>evs. trace (snd (process_profile env p s)) = trace s @ evs \<and>
                 fst (process_profile env p s) = Inr () \<and> profile_segment p evs"
        using seg t by (simp add: e) 
    qed
  qed
qed

lemma profiles_loop_segments:
  assumes "list_all well_formed ps"
  shows "spec (profiles_loop env ps)
           (\<lambda>r evs. r = Inr () \<and> (\<exists>segs. evs = concat segs \<and> list_all2 profile_segment ps segs))"
  using assms
proof (induction ps)
  case Nil
  show ?case by (simp only: profiles_loop.simps, rule spec_ret) simp
next
  case (Cons p ps)
  from Cons.prems have w: "well_formed p" and ws: "list_all well_formed ps" by simp_all
  show ?case
    apply (simp only: profiles_loop.simps)
    apply (rule spec_andthen)
    apply (rule spec_weaken[OF process_profile_segment[OF w]])
    apply (simp only: sum.case)
    apply (rule spec_weaken[OF Cons.IH[OF ws]])
    apply clarify
    subgoal for r evs r' evs' segs
      by (rule conjI, simp, rule exI[of _ "evs # segs"]) simp
    done
qed

text \<open>What the events of the profiles say about pauses and outcomes.\<close>

lemma profile_segment_reads:
  assumes "profile_segment p seg"
  shows "length (pauses seg) = 1 \<and> list_all in_range (pauses seg) \<and>
         map fst (outcomes seg) = [the (p ''name'')] \<and> Quit \<notin> set seg \<and>
         seg \<noteq> [] \<and> pause_of (last seg) \<noteq> []"
  using assms
  by (auto simp: profile_segment_def page_events_pauses page_events_outcomes in_range_def
      page_events_no_quit)

lemma segments_read:
  assumes "list_all2 profile_segment ps segs"
  shows "length (pauses (concat segs)) = length ps \<and> list_all in_range (pauses (concat segs)) \<and>
         map fst (outcomes (concat segs)) = map (\<lambda>p. the (p ''name'')) ps \<and>
         Quit \<notin> set (concat segs)"
  using assms
proof (induction rule: list_all2_induct)
  case Nil
  show ?case by simp
next
  case (Cons p ps seg segs)
  from profile_segment_reads[OF Cons.hyps(1)] Cons.IH show ?case by simp
qed

lemma bnd_Inr: "fst (m s) = Inr x \<Longrightarrow> bnd m f s = f x (snd (m s))"
  by (cases "m s") (simp add: bnd_def)

lemma bnd_Inl: "fst (m s) = Inl e \<Longrightarrow> bnd m f s = (Inl e, snd (m s))"
  by (cases "m s") (simp add: bnd_def)

lemma andthen_Inr: "fst (m s) = Inr x \<Longrightarrow> andthen m n s = n (snd (m s))"
  by (simp add: andthen_def bnd_Inr)

lemma andthen_Inl: "fst (m s) = Inl e \<Longrightarrow> andthen m n s = (Inl e, snd (m s))"
  by (simp add: andthen_def bnd_Inl)

text \<open>What \<open>setup_driver\<close> does to the state.\<close>

lemma setup_driver_cases:
  "\<exists>evs. trace (snd (setup_driver env s)) = trace s @ evs \<and> list_all startup_event evs \<and>
     (if isl (fst (setup_driver env s))
      then driver (snd (setup_driver env s)) = driver s \<or>
           driver (snd (setup_driver env s)) \<and> evs \<noteq> []
      else driver (snd (setup_driver env s)))"
  unfolding setup_driver_def prog_defs
  by (auto split: prod.split sum.split)

lemma setup_driver_ok:
  assumes "fst (setup_driver env s) = Inr ()"
  shows "driver (snd (setup_driver env s)) \<and>
         (\<exists>evs. trace (snd (setup_driver env s)) = trace s @ evs \<and> list_all startup_event evs)"
  using setup_driver_cases[of env s] assms by auto

lemma call_fst: "fst (call ev g s) = fst (g (world s))"
  by (simp add: call_def split_beta)

lemma call_trace: "trace (snd (call ev g s)) = trace s @ [ev]"
  by (simp add: call_def split_beta)

lemma call_driver: "driver (snd (call ev g s)) = driver s"
  by (simp add: call_def split_beta)

lemma setup_driver_shape:
  "\<exists>evs. trace (snd (setup_driver env s)) = trace s @ evs \<and> list_all startup_event evs \<and>
     (\<not> isl (fst (setup_driver env s)) \<longrightarrow> driver (snd (setup_driver env s))) \<and>
     (\<not> driver (snd (setup_driver env s)) \<longrightarrow>
        isl (fst (setup_driver env s)) \<and> list_all offline_event evs)"
  unfolding setup_driver_def prog_defs
  by (auto split: prod.split sum.split)

lemma run_finally_on:
  "driver s \<Longrightarrow> \<exists>rest. trace (snd (run_finally env s)) = trace s @ Quit # rest \<and> closing rest \<and>
      driver (snd (run_finally env s))"
  unfolding run_finally_def prog_defs closing_def
  by (auto split: prod.split sum.split)

lemma run_finally_off: "\<not> driver s \<Longrightarrow> run_finally env s = (Inr (), s)"
  unfolding run_finally_def prog_defs by simp

lemma try_finally_snd: "snd (try_finally m fin s) = snd (fin (snd (m s)))"
  by (simp add: try_finally_def split: prod.split sum.split)

lemma try_finally_fst:
  "fst (try_finally m fin s) = fst (m s) \<or> isl (fst (try_finally m fin s))"
  by (simp add: try_finally_def split: prod.split sum.split)

lemma process_profile_any: "spec (process_profile env p) (\<lambda>r evs. Quit \<notin> set evs)"
  unfolding process_profile_def random_uniform_def
  apply (rule spec_rules spec_weaken[OF connect_with_profile_page]
         | clarsimp simp: page_events_no_quit split: sum.split | intro allI impI conjI)+
  done

lemma profiles_loop_any: "spec (profiles_loop env ps) (\<lambda>r evs. Quit \<notin> set evs)"
proof (induction ps)
  case Nil
  show ?case by (simp only: profiles_loop.simps, rule spec_ret) simp
next
  case (Cons p ps)
  show ?case
    apply (simp only: profiles_loop.simps)
    apply (rule spec_rules spec_weaken[OF process_profile_any] spec_weaken[OF Cons.IH]
           | clarsimp split: sum.split | intro allI impI conjI)+
    done
qed

text \<open>The part of \<open>run\<close> inside the \<open>try\<close>, after the setup, with the \<open>except\<close> clause.\<close>

lemma after_setup_spec:
  "spec (try_except
           (bnd (login env) (\<lambda>logged_in.
              if \<not> logged_in
              then andthen (py_print ''Login failed. Exiting...'' []) (ret PyNone)
              else bnd (call (LoadFile f) (json_load_file env f)) (\<lambda>profiles.
                   andthen (profiles_loop env profiles) (ret PyNone))))
           (\<lambda>e. andthen (py_print ''Error during execution: {}'' [E e]) (ret PyNone)))
        (\<lambda>r evs. r = Inr PyNone \<and> Quit \<notin> set evs)"
  apply (rule spec_rules spec_weaken[OF login_spec] spec_weaken[OF profiles_loop_any]
         | clarsimp simp: page_events_no_quit split: sum.split | intro allI impI conjI)+
  done

lemma try_except_shift: "m s = m' s' \<Longrightarrow> try_except m h s = try_except m' h s'"
  by (simp add: try_except_def)


lemma startup_quiet: "list_all startup_event evs \<Longrightarrow> pauses evs = [] \<and> outcomes evs = []"
proof (induction evs)
  case Nil
  show ?case by simp
next
  case (Cons e evs)
  then show ?case by (cases e rule: startup_event.cases) simp_all
qed

text \<open>The \<open>try\<close> block of \<open>run\<close> with its \<open>except\<close> clause, in general.\<close>

lemma run_body:
  "\<exists>evs. trace (snd (try_except (run_try env f)
              (\<lambda>e. andthen (py_print ''Error during execution: {}'' [E e]) (ret PyNone)) s))
           = trace s @ evs \<and>
         fst (try_except (run_try env f)
              (\<lambda>e. andthen (py_print ''Error during execution: {}'' [E e]) (ret PyNone)) s)
           = Inr PyNone \<and>
         driver (snd (try_except (run_try env f)
              (\<lambda>e. andthen (py_print ''Error during execution: {}'' [E e]) (ret PyNone)) s))
           = driver (snd (setup_driver env s)) \<and>
         Quit \<notin> set evs \<and>
         (\<not> driver (snd (setup_driver env s)) \<longrightarrow> list_all offline_event evs)"
  (is "\<exists>evs. trace (snd (?body s)) = trace s @ evs \<and> fst (?body s) = Inr PyNone \<and> _")
proof -
  let ?s1 = "snd (setup_driver env s)"
  obtain e0 where t1: "trace ?s1 = trace s @ e0" and st: "list_all startup_event e0"
    and d1: "\<not> isl (fst (setup_driver env s)) \<longrightarrow> driver ?s1"
    and o1: "\<not> driver ?s1 \<longrightarrow> isl (fst (setup_driver env s)) \<and> list_all offline_event e0"
    using setup_driver_shape[of env s] by blast
  note q0 = startup_no_quit[OF st]
  show ?thesis
  proof (cases "fst (setup_driver env s)")
    case (Inl e)
    then have "run_try env f s = (Inl e, ?s1)"
      unfolding run_try_def by (rule andthen_Inl)
    then have b: "?body s = (Inr PyNone,
        ?s1\<lparr>trace := trace ?s1 @ [Print ''Error during execution: {}'' [E e]]\<rparr>)"
      by (simp add: prog_defs)
    show ?thesis
      apply (rule exI[of _ "e0 @ [Print ''Error during execution: {}'' [E e]]"])
      using b t1 o1 q0 by simp
  next
    case (Inr u)
    let ?rest = "bnd (login env) (\<lambda>logged_in.
              if \<not> logged_in
              then andthen (py_print ''Login failed. Exiting...'' []) (ret PyNone)
              else bnd (call (LoadFile f) (json_load_file env f)) (\<lambda>profiles.
                   andthen (profiles_loop env profiles) (ret PyNone)))"
    let ?h = "\<lambda>e. andthen (py_print ''Error during execution: {}'' [E e]) (ret PyNone)"
    from Inr have "run_try env f s = ?rest ?s1"
      unfolding run_try_def by (rule andthen_Inr)
    then have b: "?body s = try_except ?rest ?h ?s1"
      by (rule try_except_shift)
    from specD[OF after_setup_spec, of env f ?s1] obtain e1 where
      t2: "trace (snd (try_except ?rest ?h ?s1)) = trace ?s1 @ e1"
      and r2: "fst (try_except ?rest ?h ?s1) = Inr PyNone" and q1: "Quit \<notin> set e1" by blast
    from spec_keeps[OF after_setup_spec, of ?s1 env f]
    have d2: "driver (snd (try_except ?rest ?h ?s1)) = driver ?s1" by (simp add: keeps_def)
    from d1 Inr have d3: "driver ?s1" by simp
    show ?thesis
      apply (rule exI[of _ "e0 @ e1"])
      using b t1 t2 r2 d2 d3 q0 q1 by simp
  qed
qed

lemma closing_no_profile: "closing rest \<Longrightarrow> no_profile rest \<and> pauses rest = [] \<and> outcomes rest = []"
  by (auto simp: closing_def)

text \<open>The \<open>finally\<close> clause after the \<open>try\<close> block, in general.\<close>

lemma run_general:
  "(fst (run env f s) = Inr PyNone \<or> isl (fst (run env f s))) \<and>
   (driver (snd (setup_driver env s)) \<longrightarrow>
      (\<exists>evs rest. trace (snd (run env f s)) = trace s @ evs @ Quit # rest \<and>
         Quit \<notin> set evs \<and> closing rest)) \<and>
   (\<not> driver (snd (setup_driver env s)) \<longrightarrow>
      (\<exists>evs. trace (snd (run env f s)) = trace s @ evs \<and> list_all offline_event evs))"
proof -
  let ?body = "try_except (run_try env f)
              (\<lambda>e. andthen (py_print ''Error during execution: {}'' [E e]) (ret PyNone))"
  let ?sb = "snd (?body s)"
  obtain evs where t: "trace ?sb = trace s @ evs" and r: "fst (?body s) = Inr PyNone"
    and d: "driver ?sb = driver (snd (setup_driver env s))" and nq: "Quit \<notin> set evs"
    and o: "\<not> driver (snd (setup_driver env s)) \<longrightarrow> list_all offline_event evs"
    using run_body[of env f s] by blast
  have s': "snd (run env f s) = snd (run_finally env ?sb)"
    unfolding run_def by (rule try_finally_snd)
  have res: "fst (run env f s) = Inr PyNone \<or> isl (fst (run env f s))"
    using try_finally_fst[of ?body "run_finally env" s] r unfolding run_def by auto
  show ?thesis
  proof (cases "driver ?sb")
    case True
    from run_finally_on[OF True, of env] obtain rest where
      q: "trace (snd (run_finally env ?sb)) = trace ?sb @ Quit # rest" and c: "closing rest"
      by blast
    have "trace (snd (run env f s)) = trace s @ evs @ Quit # rest"
      using q t s' by simp
    with c d True nq res show ?thesis by auto
  next
    case False
    then have "run_finally env ?sb = (Inr (), ?sb)" by (rule run_finally_off)
    with s' have "snd (run env f s) = ?sb" by simp
    with False t o d res show ?thesis by auto
  qed
qed



text \<open>A run whose setup, login and profile file are fine.\<close>

lemma run_processes:
  assumes h1: "fst (setup_driver env s) = Inr ()"
    and h2: "fst (login env (snd (setup_driver env s))) = Inr True"
    and h3: "fst (json_load_file env f (world (snd (login env (snd (setup_driver env s)))))) = Inr ps"
    and h4: "list_all well_formed ps"
  shows "\<exists>pre segs rest.
          trace (snd (run env f s)) = trace s @ pre @ concat segs @ Quit # rest \<and>
          pauses pre = [] \<and> outcomes pre = [] \<and> Quit \<notin> set pre \<and>
          list_all2 profile_segment ps segs \<and> closing rest"
proof -
  let ?h = "\<lambda>e. andthen (py_print ''Error during execution: {}'' [E e]) (ret PyNone)"
  let ?body = "try_except (run_try env f) ?h"
  let ?s1 = "snd (setup_driver env s)"
  let ?s2 = "snd (login env ?s1)"
  let ?s3 = "snd (call (LoadFile f) (json_load_file env f) ?s2)"
  let ?s4 = "snd (profiles_loop env ps ?s3)"
  obtain e0 where t1: "trace ?s1 = trace s @ e0" and st: "list_all startup_event e0"
    and d1: "driver ?s1"
    using setup_driver_shape[of env s] h1 by auto
  from specD[OF login_spec, of env ?s1] obtain e1 where
    t2: "trace ?s2 = trace ?s1 @ e1" and pg: "page_events e1" by blast
  from spec_keeps[OF login_spec, of ?s1 env] d1 have d2: "driver ?s2" by (simp add: keeps_def)
  have t3: "trace ?s3 = trace ?s2 @ [LoadFile f]" by (rule call_trace)
  have d3: "driver ?s3" using d2 by (simp add: call_driver)
  have r3: "fst (call (LoadFile f) (json_load_file env f) ?s2) = Inr ps"
    using h3 by (simp add: call_fst)
  from specD[OF profiles_loop_segments[OF h4], of env ?s3] obtain segs where
    t4: "trace ?s4 = trace ?s3 @ concat segs" and r4: "fst (profiles_loop env ps ?s3) = Inr ()"
    and q1: "list_all2 profile_segment ps segs"
    by blast
  from spec_keeps[OF profiles_loop_segments[OF h4], of ?s3 env] d3 have d4: "driver ?s4"
    by (simp add: keeps_def)
  let ?rest = "bnd (login env) (\<lambda>logged_in.
              if \<not> logged_in
              then andthen (py_print ''Login failed. Exiting...'' []) (ret PyNone)
              else bnd (call (LoadFile f) (json_load_file env f)) (\<lambda>profiles.
                   andthen (profiles_loop env profiles) (ret PyNone)))"
  have "run_try env f s = ?rest ?s1"
    using h1 unfolding run_try_def by (rule andthen_Inr)
  also have "\<dots> = bnd (call (LoadFile f) (json_load_file env f)) (\<lambda>profiles.
                   andthen (profiles_loop env profiles) (ret PyNone)) ?s2"
    by (rule trans, rule bnd_Inr, rule h2) simp
  also have "\<dots> = andthen (profiles_loop env ps) (ret PyNone) ?s3"
    by (rule trans, rule bnd_Inr, rule r3) simp
  also have "\<dots> = ret PyNone ?s4"
    using r4 by (rule andthen_Inr)
  finally have "run_try env f s = (Inr PyNone, ?s4)" by (simp add: ret_def)
  then have b: "?body s = (Inr PyNone, ?s4)"
    by (simp add: try_except_def)
  have s': "snd (run env f s) = snd (run_finally env ?s4)"
    unfolding run_def using try_finally_snd[of ?body "run_finally env" s] b by simp
  from run_finally_on[OF d4, of env] obtain rest where
    q: "trace (snd (run_finally env ?s4)) = trace ?s4 @ Quit # rest" and c: "closing rest"
    by blast
  have tr: "trace (snd (run env f s)) =
      trace s @ (e0 @ e1 @ [LoadFile f]) @ concat segs @ Quit # rest"
    using s' q t1 t2 t3 t4 by simp
  have p0: "pauses (e0 @ e1 @ [LoadFile f]) = []" "outcomes (e0 @ e1 @ [LoadFile f]) = []"
    using startup_quiet[OF st] page_events_pauses[OF pg] page_events_outcomes[OF pg] by simp_all
  have p1: "Quit \<notin> set (e0 @ e1 @ [LoadFile f])"
    using startup_no_quit[OF st] page_events_no_quit[OF pg] by simp
  show ?thesis
    apply (rule exI[of _ "e0 @ e1 @ [LoadFile f]"], rule exI[of _ segs], rule exI[of _ rest])
    using tr p0 p1 q1 c by simp
qed

text \<open>The simulated collaborators.\<close>

lemmas env_defs = quiet_env_def two_profiles_env_def one_profile_env_def login_rejected_env_def
  no_browser_env_def

lemma setup_driver_fst:
  "fst (setup_driver env s) =
     (case fst (webdriver_install env (world s)) of
        Inl e \<Rightarrow> Inl e
      | Inr u \<Rightarrow>
         (case fst (webdriver_chrome env (chrome_options (headless s))
                      (snd (webdriver_install env (world s)))) of
            Inl e \<Rightarrow> Inl e
          | Inr u \<Rightarrow>
              fst (execute_script env MaskWebdriver
                    (snd (webdriver_chrome env (chrome_options (headless s))
                            (snd (webdriver_install env (world s))))))))"
  unfolding setup_driver_def prog_defs
  by (simp add: split_beta split: sum.split)

lemma setup_two: "fst (setup_driver two_profiles_env s) = Inr ()"
  by (simp add: setup_driver_fst env_defs)



lemma setup_no_browser: "fst (setup_driver no_browser_env s) = Inl WebDriverException"
  by (simp add: setup_driver_fst env_defs)

lemma login_two_spec: "spec (login two_profiles_env) (\<lambda>r evs. r = Inr True)"
  unfolding login_def login_try_def
  apply (rule spec_rules | simp add: env_defs lit_def split: sum.split | intro allI impI conjI)+
  done



lemma login_two: "fst (login two_profiles_env s) = Inr True"
  using specD[OF login_two_spec, of s] by blast



lemma jane_well_formed: "well_formed jane"
  by (simp add: well_formed_def jane_def)

lemma quit_ok_fst:
  "\<forall>w. fst (driver_quit env w) = Inr () \<Longrightarrow> fst (run_finally env s) = Inr ()"
  unfolding run_finally_def prog_defs by (simp add: split_beta)

lemma try_finally_fst_ok:
  "fst (fin (snd (m s))) = Inr u \<Longrightarrow> fst (try_finally m fin s) = fst (m s)"
  by (auto simp: try_finally_def split: prod.split sum.split)

lemma run_returns_none:
  assumes "\<forall>w. fst (driver_quit env w) = Inr ()"
  shows "fst (run env f s) = Inr PyNone"
proof -
  let ?body = "try_except (run_try env f)
              (\<lambda>e. andthen (py_print ''Error during execution: {}'' [E e]) (ret PyNone))"
  have "fst (run env f s) = fst (?body s)"
    unfolding run_def by (rule try_finally_fst_ok) (rule quit_ok_fst[OF assms])
  then show ?thesis using run_body[of env f s] by auto
qed


subsection \<open>The claims about \<open>run\<close>\<close>


text \<open>The outcome line of one pass carries the result of \<open>connect_with_profile\<close>.\<close>

lemma process_profile_outcome:
  assumes n: "p ''name'' = Some name" and u: "p ''url'' = Some url"
    and c: "fst (connect_with_profile env url p
              (s\<lparr>trace := trace s @ [Print (CHR 0x0A # ''Processing profile: {}'') [S name]]\<rparr>))
            = Inr ok"
  shows "\<exists>evs. trace (snd (process_profile env p s)) = trace s @ evs \<and>
          fst (process_profile env p s) = Inr () \<and> outcomes evs = [(name, ok)]"
proof -
  let ?s0 = "s\<lparr>trace := trace s @ [Print (CHR 0x0A # ''Processing profile: {}'') [S name]]\<rparr>"
  let ?c = "connect_with_profile env url p ?s0"
  let ?d = "20 + 20 * py_random (fst (random_bits env (world (snd ?c))))"
  from c have c': "?c = (Inr ok, snd ?c)" by (simp add: prod_eq_iff)
  from specD[OF connect_with_profile_page, of env url p ?s0] obtain body where
    t: "trace (snd ?c) = trace ?s0 @ body" and pg: "page_events body" by blast
  note e = process_profile_exact[OF n u c']
  show ?thesis
    apply (rule exI[of _ "Print (CHR 0x0A # ''Processing profile: {}'') [S name] # body @
         [Print (if ok then ''Successfully processed {}'' else ''Failed to process {}'') [S name],
          RandomUniform 20 40,
          Print ''Waiting {:.0f} seconds before next profile...'' [R ?d], Sleep ?d]"])
    using t page_events_outcomes[OF pg] random_uniform_range[of "fst (random_bits env (world (snd ?c)))"]
    by (simp add: e in_range_def)
qed

lemma connect_offline: "fst (connect_with_profile offline_env url p s) = Inr False"
proof -
  have "\<forall>u w. isl (fst (driver_get offline_env u w))" by (simp add: offline_env_def)
  from specD[OF connect_navigation_fails[OF this], of url p s]
  have "isl (fst (connect_with_profile_try offline_env url p s))" by blast
  then obtain e where "fst (connect_with_profile_try offline_env url p s) = Inl e"
    by (cases "fst (connect_with_profile_try offline_env url p s)") auto
  from connect_with_profile_escaped[OF this] show ?thesis by simp
qed






text \<open>
  Claim C5, as the code has it.  \<open>run\<close> has no \<open>return\<close> with a value: whenever it returns,
  it returns \<open>None\<close> (it raises only if the teardown does), and it returns whenever
  \<open>quit\<close> does not raise.  The outcomes are printed, not returned: in a run whose setup and
  login succeed and whose profile file holds the profiles \<open>ps\<close>, each with a name and a
  URL, the events of the loop are one segment per profile, in order, each with one outcome
  line, so the outcome lines of the run name the profiles of \<open>ps\<close> one by one; and the
  outcome line of a pass carries the result of \<open>connect_with_profile\<close> for that profile.
\<close>

theorem run_outcomes:
  "(fst (run env f s) = Inr PyNone \<or> isl (fst (run env f s))) \<and>
   ((\<forall>w. fst (driver_quit env w) = Inr ()) \<longrightarrow> fst (run env f s) = Inr PyNone) \<and>
   (fst (setup_driver env s) = Inr () \<and>
    fst (login env (snd (setup_driver env s))) = Inr True \<and>
    fst (json_load_file env f (world (snd (login env (snd (setup_driver env s)))))) = Inr ps \<and>
    list_all well_formed ps \<longrightarrow>
      (\<exists>pre segs rest.
          trace (snd (run env f s)) = trace s @ pre @ concat segs @ Quit # rest \<and>
          outcomes pre = [] \<and> list_all2 profile_segment ps segs \<and> closing rest \<and>
          map fst (outcomes (pre @ concat segs @ Quit # rest)) =
            map (\<lambda>p. the (p ''name'')) ps)) \<and>
   (p ''name'' = Some name \<and> p ''url'' = Some url \<and>
    fst (connect_with_profile env url p
          (s\<lparr>trace := trace s @ [Print (CHR 0x0A # ''Processing profile: {}'') [S name]]\<rparr>))
      = Inr ok \<longrightarrow>
      (\<exists>evs. trace (snd (process_profile env p s)) = trace s @ evs \<and>
         fst (process_profile env p s) = Inr () \<and> outcomes evs = [(name, ok)]))"
proof (intro conjI impI)
  show "fst (run env f s) = Inr PyNone \<or> isl (fst (run env f s))"
    using run_general[of env f s] by blast
next
  assume "\<forall>w. fst (driver_quit env w) = Inr ()"
  then show "fst (run env f s) = Inr PyNone" by (rule run_returns_none)
next
  assume a: "fst (setup_driver env s) = Inr () \<and>
    fst (login env (snd (setup_driver env s))) = Inr True \<and>
    fst (json_load_file env f (world (snd (login env (snd (setup_driver env s)))))) = Inr ps \<and>
    list_all well_formed ps"
  from run_processes[of env s f ps] a obtain pre segs rest where
    t: "trace (snd (run env f s)) = trace s @ pre @ concat segs @ Quit # rest"
    and o: "outcomes pre = []" and sg: "list_all2 profile_segment ps segs" and c: "closing rest"
    by blast
  show "\<exists>pre segs rest.
          trace (snd (run env f s)) = trace s @ pre @ concat segs @ Quit # rest \<and>
          outcomes pre = [] \<and> list_all2 profile_segment ps segs \<and> closing rest \<and>
          map fst (outcomes (pre @ concat segs @ Quit # rest)) =
            map (\<lambda>p. the (p ''name'')) ps"
    apply (rule exI[of _ pre], rule exI[of _ segs], rule exI[of _ rest])
    using t o sg c segments_read[OF sg] closing_no_profile[OF c] by simp
next
  assume a: "p ''name'' = Some name \<and> p ''url'' = Some url \<and>
    fst (connect_with_profile env url p
          (s\<lparr>trace := trace s @ [Print (CHR 0x0A # ''Processing profile: {}'') [S name]]\<rparr>))
      = Inr ok"
  then show "\<exists>evs. trace (snd (process_profile env p s)) = trace s @ evs \<and>
         fst (process_profile env p s) = Inr () \<and> outcomes evs = [(name, ok)]"
    using process_profile_outcome[of p name url env s ok] by blast
qed

theorem run_outcomes_witness:
  "list_all (\<lambda>w. fst (driver_quit two_profiles_env w) = Inr ()) [0, 1, 2] \<and>
   fst (run two_profiles_env ''profile_data.json'' start) = Inr PyNone \<and>
   fst (setup_driver two_profiles_env start) = Inr () \<and>
   fst (login two_profiles_env (snd (setup_driver two_profiles_env start))) = Inr True \<and>
   fst (json_load_file two_profiles_env ''profile_data.json''
          (world (snd (login two_profiles_env (snd (setup_driver two_profiles_env start))))))
     = Inr [jane, jane] \<and>
   list_all well_formed [jane, jane] \<and>
   (\<exists>pre segs rest.
      trace (snd (run two_profiles_env ''profile_data.json'' start)) =
        pre @ concat segs @ Quit # rest \<and>
      outcomes pre = [] \<and> list_all2 profile_segment [jane, jane] segs \<and> closing rest \<and>
      map fst (outcomes (pre @ concat segs @ Quit # rest)) =
        [lit ''Jane Doe'', lit ''Jane Doe'']) \<and>
   jane ''name'' = Some (lit ''Jane Doe'') \<and>
   jane ''url'' = Some (lit ''linkedin.com/in/janedoe'') \<and>
   fst (connect_with_profile offline_env (lit ''linkedin.com/in/janedoe'') jane
          (start\<lparr>trace := trace start @
             [Print (CHR 0x0A # ''Processing profile: {}'') [S (lit ''Jane Doe'')]]\<rparr>))
     = Inr False \<and>
   (\<exists>evs. trace (snd (process_profile offline_env jane start)) = evs \<and>
      fst (process_profile offline_env jane start) = Inr () \<and>
      outcomes evs = [(lit ''Jane Doe'', False)])"
proof -
  have t: "trace start = []" by (simp add: start_def)
  have q: "\<forall>w. fst (driver_quit two_profiles_env w) = Inr ()" by (simp add: env_defs)
  have q': "list_all (\<lambda>w. fst (driver_quit two_profiles_env w) = Inr ()) [0, 1, 2]"
    by (simp add: env_defs)
  have h3: "fst (json_load_file two_profiles_env ''profile_data.json''
          (world (snd (login two_profiles_env (snd (setup_driver two_profiles_env start))))))
     = Inr [jane, jane]" by (simp add: two_profiles_env_def)
  have h4: "list_all well_formed [jane, jane]" by (simp add: jane_well_formed)
  have h: "fst (setup_driver two_profiles_env start) = Inr () \<and>
    fst (login two_profiles_env (snd (setup_driver two_profiles_env start))) = Inr True \<and>
    fst (json_load_file two_profiles_env ''profile_data.json''
          (world (snd (login two_profiles_env (snd (setup_driver two_profiles_env start))))))
      = Inr [jane, jane] \<and>
    list_all well_formed [jane, jane]"
    using setup_two[of start] login_two h3 h4 by simp
  have j: "jane ''name'' = Some (lit ''Jane Doe'')"
    "jane ''url'' = Some (lit ''linkedin.com/in/janedoe'')"
    by (simp_all add: jane_def)
  have k: "fst (connect_with_profile offline_env (lit ''linkedin.com/in/janedoe'') jane
          (start\<lparr>trace := trace start @
             [Print (CHR 0x0A # ''Processing profile: {}'') [S (lit ''Jane Doe'')]]\<rparr>))
     = Inr False" by (rule connect_offline)
  note a = run_outcomes[of two_profiles_env "''profile_data.json''" start "[jane, jane]"]
  note b = run_outcomes[of offline_env _ start _ jane "lit ''Jane Doe''"
      "lit ''linkedin.com/in/janedoe''" False]
  from a[THEN conjunct2, THEN conjunct1] q
  have w1: "fst (run two_profiles_env ''profile_data.json'' start) = Inr PyNone" by blast
  from a[THEN conjunct2, THEN conjunct2, THEN conjunct1] h
  have w2: "\<exists>pre segs rest.
      trace (snd (run two_profiles_env ''profile_data.json'' start)) =
        pre @ concat segs @ Quit # rest \<and>
      outcomes pre = [] \<and> list_all2 profile_segment [jane, jane] segs \<and> closing rest \<and>
      map fst (outcomes (pre @ concat segs @ Quit # rest)) =
        [lit ''Jane Doe'', lit ''Jane Doe'']"
    by (simp add: t j)
  from b[THEN conjunct2, THEN conjunct2, THEN conjunct2] j k
  have w3: "\<exists>evs. trace (snd (process_profile offline_env jane start)) = evs \<and>
      fst (process_profile offline_env jane start) = Inr () \<and>
      outcomes evs = [(lit ''Jane Doe'', False)]"
    by (simp add: t)
  from q' h w1 w2 w3 j k show ?thesis by blast
qed

text \<open>
  A run over one profile that goes well returns \<open>None\<close>, not a sequence with the outcome of
  that profile, as claim C5 has it.
\<close>

theorem run_returns_none_counterexample:
  "fst (run one_profile_env ''profile_data.json'' start) = Inr PyNone \<and>
   fst (run one_profile_env ''profile_data.json'' start) \<noteq> Inr (Outcomes [(lit ''Jane Doe'', True)]) \<and>
   fst (run one_profile_env ''profile_data.json'' start) \<noteq> Inr (Outcomes [(lit ''Jane Doe'', False)])"
proof -
  have "\<forall>w. fst (driver_quit one_profile_env w) = Inr ()" by (simp add: env_defs)
  from run_returns_none[OF this] show ?thesis by simp
qed

end
